theory Spec2Isabelle
  imports Complex_Main
begin

section \<open>Data model\<close>

text \<open>
  The storefront keeps products, offers, orders and reviews in a relational store that
  the handlers reach through an ORM. The model keeps each table as a HOL value and each
  handler as a function from the store (and the request) to a response and the new store.

  JavaScript numbers that carry money (prices, totals, discounts, ratings) are modelled
  as exact rationals: rounding of binary floating point is not part of the model.
  Quantities and stock are integers. Instants are milliseconds since the epoch.
\<close>

datatype OfferType = PERCENTAGE | FIXED_AMOUNT | FREE_SHIPPING

datatype OrderStatus = PENDING | PROCESSING | SHIPPED | DELIVERED | CANCELLED

datatype DbError = DbError string

record Offer =
  offer_id :: string
  code :: string
  offer_type :: OfferType
  offer_value :: rat
  minAmount :: "rat option"
  maxUses :: "int option"
  usedCount :: int
  offer_isActive :: bool
  startsAt :: int
  endsAt :: int
  productOffers :: "string list"

record OfferCalculation =
  discount :: rat
  finalPrice :: rat
  offer :: "Offer option"

record Product =
  product_name :: string
  stock :: int
  product_isActive :: bool
  rating :: rat
  reviewCount :: nat

record OrderItem =
  productId :: string
  quantity :: int
  price :: rat
  item_total :: rat

record Order =
  order_userId :: string
  status :: OrderStatus
  subtotal :: rat
  order_discount :: rat
  tax :: rat
  shipping :: rat
  total :: rat
  offerId :: "string option"
  items :: "OrderItem list"

record Review =
  review_userId :: string
  review_productId :: string
  review_rating :: int
  review_isActive :: bool

text \<open>
  The store. Products are keyed by their id. An order's id is its position in the order
  table (orders are appended on creation; deletion is not part of the model). Offers and
  reviews are rows in insertion order.
\<close>

record Db =
  products :: "string \<rightharpoonup> Product"
  orders :: "Order list"
  offers :: "Offer list"
  reviews :: "Review list"

text \<open>A JSON response: a status code with a payload, or a status code with an
  \<open>error\<close> message.\<close>

datatype 'a Response = Json nat 'a | JsonError nat string

text \<open>Request bodies, after parsing.\<close>

record ItemRequest =
  req_productId :: string
  req_quantity :: int
  req_price :: rat

record OrderRequest =
  req_items :: "ItemRequest list"
  shippingAddress :: string
  paymentMethod :: string
  req_offerCode :: "string option"

record ReviewRequest =
  rev_productId :: string
  rev_rating :: int

section \<open>Offer evaluation (src/lib/offers.ts)\<close>

text \<open>
  \<open>String.prototype.toUpperCase\<close>, restricted to ASCII: the letters a to z are mapped
  to A to Z and every other character is kept.
\<close>

definition toUpperCase_char :: "char \<Rightarrow> char" where
  "toUpperCase_char c =
     (case map_of (zip ''abcdefghijklmnopqrstuvwxyz'' ''ABCDEFGHIJKLMNOPQRSTUVWXYZ'') c of
        None \<Rightarrow> c
      | Some u \<Rightarrow> u)"

definition toUpperCase :: "string \<Rightarrow> string" where
  "toUpperCase s = map toUpperCase_char s"

text \<open>
  The \<open>where\<close> clause of \<open>db.offer.findFirst\<close> in \<open>validateAndApplyOffer\<close>: equality on
  the code, \<open>isActive\<close>, \<open>startsAt \<le> now\<close> (lte), \<open>endsAt \<ge> now\<close> (gte), and
  \<open>maxUses\<close> null or \<open>usedCount < maxUses\<close>. Both \<open>new Date()\<close> calls of the clause are
  taken to read the same instant \<open>now\<close>. String equality is the exact comparison of the
  datastore's default collation.
\<close>

definition offer_where :: "int \<Rightarrow> string \<Rightarrow> Offer \<Rightarrow> bool" where
  "offer_where now c ofr =
     (code ofr = c \<and> offer_isActive ofr \<and> startsAt ofr \<le> now \<and> endsAt ofr \<ge> now \<and>
      (case maxUses ofr of None \<Rightarrow> True | Some m \<Rightarrow> usedCount ofr < m))"

definition zero_discount :: "rat \<Rightarrow> OfferCalculation" where
  "zero_discount cartTotal = \<lparr>discount = 0, finalPrice = cartTotal, offer = None\<rparr>"

text \<open>
  \<open>validateAndApplyOffer(offerCode, cartTotal, productIds?)\<close>. The first argument is
  the outcome of reading the offer table: \<open>Inl e\<close> when the query throws (the body's
  \<open>try\<close>/\<open>catch\<close> then returns the zero discount), \<open>Inr rows\<close> otherwise.
\<close>

definition validateAndApplyOffer ::
  "DbError + Offer list \<Rightarrow> int \<Rightarrow> string \<Rightarrow> rat \<Rightarrow> string list option \<Rightarrow> OfferCalculation" where
  "validateAndApplyOffer tbl now offerCode cartTotal productIds =
     (case tbl of
        Inl e \<Rightarrow> zero_discount cartTotal
      | Inr rows \<Rightarrow>
          (case find (offer_where now (toUpperCase offerCode)) rows of
             None \<Rightarrow> zero_discount cartTotal
           | Some ofr \<Rightarrow>
               if (case minAmount ofr of None \<Rightarrow> False | Some m \<Rightarrow> m \<noteq> 0 \<and> cartTotal < m)
               then zero_discount cartTotal
               else if productOffers ofr \<noteq> [] \<and>
                       (case productIds of None \<Rightarrow> True
                        | Some ids \<Rightarrow> ids = [] \<or> \<not> list_ex (\<lambda>i. i \<in> set (productOffers ofr)) ids)
               then zero_discount cartTotal
               else
                 (let d = (case offer_type ofr of
                             PERCENTAGE \<Rightarrow> cartTotal * (offer_value ofr / 100)
                           | FIXED_AMOUNT \<Rightarrow> min (offer_value ofr) cartTotal
                           | FREE_SHIPPING \<Rightarrow> 0)
                  in \<lparr>discount = d, finalPrice = cartTotal - d, offer = Some ofr\<rparr>)))"

text \<open>The schema every offer passes on creation and update: \<open>value\<close> positive,
  \<open>minAmount\<close> positive when given, \<open>maxUses\<close> a positive integer when given.\<close>

definition offerSchema_ok :: "Offer \<Rightarrow> bool" where
  "offerSchema_ok ofr =
     (code ofr \<noteq> [] \<and> 0 < offer_value ofr \<and>
      (case minAmount ofr of None \<Rightarrow> True | Some m \<Rightarrow> 0 < m) \<and>
      (case maxUses ofr of None \<Rightarrow> True | Some m \<Rightarrow> 0 < m))"

section \<open>Offer creation (POST /api/offers)\<close>

text \<open>
  The POST handler. \<open>offerData\<close> is the parsed body; the store generates the id
  \<open>newId\<close> and starts \<open>usedCount\<close> at 0. The code is stored as it was sent.
\<close>

definition POST_offer :: "Db \<Rightarrow> string \<Rightarrow> Offer \<Rightarrow> Offer Response \<times> Db" where
  "POST_offer db newId offerData =
     (if \<not> offerSchema_ok offerData then (JsonError 400 ''Validation failed'', db)
      else case find (\<lambda>ofr. code ofr = code offerData) (offers db) of
        Some existingOffer \<Rightarrow> (JsonError 400 ''Offer with this code already exists'', db)
      | None \<Rightarrow>
          if endsAt offerData \<le> startsAt offerData
          then (JsonError 400 ''End date must be after start date'', db)
          else (let created = offerData\<lparr>offer_id := newId, usedCount := 0\<rparr>
                in (Json 201 created, db\<lparr>offers := offers db @ [created]\<rparr>)))"

section \<open>Stock updates\<close>

text \<open>
  \<open>db.product.update({ where: { id }, data: { stock: { increment: d } } })\<close> (a
  decrement is the increment by \<open>- d\<close>). The ORM throws when no row has the id.
\<close>

definition product_update_stock ::
  "(string \<rightharpoonup> Product) \<Rightarrow> string \<Rightarrow> int \<Rightarrow> DbError + (string \<rightharpoonup> Product)" where
  "product_update_stock tbl i d =
     (case tbl i of
        None \<Rightarrow> Inl (DbError ''Record to update not found'')
      | Some p \<Rightarrow> Inr (tbl(i \<mapsto> p\<lparr>stock := stock p + d\<rparr>)))"

text \<open>
  A \<open>for (const item of ...) await db.product.update(...)\<close> loop: the first update that
  throws ends the loop, the earlier updates stay. The flag says whether it threw.
\<close>

fun update_stock_each ::
  "(string \<rightharpoonup> Product) \<Rightarrow> (string \<times> int) list \<Rightarrow> bool \<times> (string \<rightharpoonup> Product)" where
  "update_stock_each tbl [] = (False, tbl)"
| "update_stock_each tbl ((i, d) # ds) =
     (case product_update_stock tbl i d of
        Inl e \<Rightarrow> (True, tbl)
      | Inr tbl' \<Rightarrow> update_stock_each tbl' ds)"

text \<open>
  \<open>await Promise.all(items.map(item => db.product.update(...)))\<close>: every update is
  issued; the whole rejects when one of them throws, and the others still take effect.
\<close>

fun update_stock_all ::
  "(string \<rightharpoonup> Product) \<Rightarrow> (string \<times> int) list \<Rightarrow> bool \<times> (string \<rightharpoonup> Product)" where
  "update_stock_all tbl [] = (False, tbl)"
| "update_stock_all tbl ((i, d) # ds) =
     (case product_update_stock tbl i d of
        Inl e \<Rightarrow> (True, snd (update_stock_all tbl ds))
      | Inr tbl' \<Rightarrow> update_stock_all tbl' ds)"

text \<open>
  The net effect of a list of stock updates on a table: the stock of each product that
  exists moves by the sum of the amounts listed for it.
\<close>

definition qty_for :: "string \<Rightarrow> (string \<times> int) list \<Rightarrow> int" where
  "qty_for i ds = sum_list (map snd (filter (\<lambda>d. fst d = i) ds))"

definition adjust_stock ::
  "(string \<rightharpoonup> Product) \<Rightarrow> (string \<times> int) list \<Rightarrow> (string \<rightharpoonup> Product)" where
  "adjust_stock tbl ds = (\<lambda>i. map_option (\<lambda>p. p\<lparr>stock := stock p + qty_for i ds\<rparr>) (tbl i))"

text \<open>The stock invariant, and the shape of an order that the creation handler
  produces: no two lines for the same product, every quantity positive.\<close>

definition stock_nonneg :: "(string \<rightharpoonup> Product) \<Rightarrow> bool" where
  "stock_nonneg tbl = (\<forall>i p. tbl i = Some p \<longrightarrow> 0 \<le> stock p)"

definition order_wf :: "Order \<Rightarrow> bool" where
  "order_wf ord =
     (distinct (map productId (items ord)) \<and> list_all (\<lambda>it. 0 < quantity it) (items ord))"

section \<open>Order creation (POST /api/orders)\<close>

text \<open>The request schema: every quantity a positive integer, every price positive,
  the two address fields not empty.\<close>

definition orderSchema_ok :: "OrderRequest \<Rightarrow> bool" where
  "orderSchema_ok req =
     (list_all (\<lambda>it. 0 < req_quantity it \<and> 0 < req_price it) (req_items req) \<and>
      shippingAddress req \<noteq> [] \<and> paymentMethod req \<noteq> [])"

text \<open>\<open>db.product.findMany({ where: { id: { in: productIds }, isActive: true } })\<close>:
  one row for each id of the list that names an active product.\<close>

definition product_findMany_active ::
  "(string \<rightharpoonup> Product) \<Rightarrow> string list \<Rightarrow> (string \<times> Product) list" where
  "product_findMany_active tbl ids =
     List.map_filter
       (\<lambda>i. case tbl i of
               None \<Rightarrow> None
             | Some p \<Rightarrow> if product_isActive p then Some (i, p) else None)
       (remdups ids)"

text \<open>The stock loop of the handler: the name of the product of the first item whose
  quantity exceeds the stock read by \<open>findMany\<close>, if there is one.\<close>

fun check_stock :: "(string \<times> Product) list \<Rightarrow> ItemRequest list \<Rightarrow> string option" where
  "check_stock ps [] = None"
| "check_stock ps (it # its) =
     (case find (\<lambda>p. fst p = req_productId it) ps of
        Some (i, p) \<Rightarrow>
          if stock p < req_quantity it then Some (product_name p) else check_stock ps its
      | None \<Rightarrow> check_stock ps its)"

definition make_orderItem :: "ItemRequest \<Rightarrow> OrderItem" where
  "make_orderItem it =
     \<lparr>productId = req_productId it, quantity = req_quantity it, price = req_price it,
      item_total = req_price it * of_int (req_quantity it)\<rparr>"

text \<open>\<open>incrementOfferUsage(offerId)\<close>: adds one to \<open>usedCount\<close> of the offer with the
  id; an update that finds no row throws and the function swallows it.\<close>

definition incrementOfferUsage :: "Offer list \<Rightarrow> string \<Rightarrow> Offer list" where
  "incrementOfferUsage rows oid =
     map (\<lambda>ofr. if offer_id ofr = oid then ofr\<lparr>usedCount := usedCount ofr + 1\<rparr> else ofr) rows"

text \<open>The charges: tax is 10 percent of the subtotal, shipping is free above 50 and
  5.99 otherwise.\<close>

definition order_tax :: "rat \<Rightarrow> rat" where
  "order_tax sub = sub * (1 / 10)"

definition order_shipping :: "rat \<Rightarrow> rat" where
  "order_shipping sub = (if sub > 50 then 0 else 599 / 100)"

text \<open>
  Modelled from the spec: the default of the \<open>status\<close> column of an order. The handler
  does not set the status and the schema is not among the sources; the lifecycle of the
  specification starts at \<open>PENDING\<close>.
\<close>

definition default_order_status :: OrderStatus where
  "default_order_status = PENDING"

text \<open>
  The POST handler. \<open>auth\<close> is the authenticated user's id, if any.
\<close>

definition POST_order ::
  "Db \<Rightarrow> int \<Rightarrow> string option \<Rightarrow> OrderRequest \<Rightarrow> Order Response \<times> Db" where
  "POST_order db now auth req =
     (if \<not> orderSchema_ok req then (JsonError 400 ''Validation failed'', db)
      else case auth of
        None \<Rightarrow> (JsonError 401 ''Authentication required'', db)
      | Some uid \<Rightarrow>
          (let productIds = map req_productId (req_items req);
               found = product_findMany_active (products db) productIds
           in if length found \<noteq> length productIds
              then (JsonError 400 ''Some products are not available'', db)
              else case check_stock found (req_items req) of
                Some nm \<Rightarrow> (JsonError 400 (''Insufficient stock for product: '' @ nm), db)
              | None \<Rightarrow>
                  (let sub = foldl (\<lambda>s it. s + req_price it * of_int (req_quantity it)) 0
                               (req_items req);
                       orderItems = map make_orderItem (req_items req);
                       offerResult =
                         (case req_offerCode req of
                            None \<Rightarrow> zero_discount sub
                          | Some c \<Rightarrow>
                              if c = [] then zero_discount sub
                              else validateAndApplyOffer (Inr (offers db)) now c sub
                                     (Some productIds));
                       disc = discount offerResult;
                       oid = (case offer offerResult of
                                None \<Rightarrow> None
                              | Some ofr \<Rightarrow>
                                  if offer_id ofr = [] then None else Some (offer_id ofr));
                       order = \<lparr>order_userId = uid, status = default_order_status, subtotal = sub,
                                order_discount = disc, tax = order_tax sub,
                                shipping = order_shipping sub,
                                total = sub - disc + order_tax sub + order_shipping sub,
                                offerId = oid, items = orderItems\<rparr>;
                       db1 = db\<lparr>orders := orders db @ [order]\<rparr>;
                       upd = update_stock_each (products db1)
                               (map (\<lambda>it. (req_productId it, - req_quantity it)) (req_items req));
                       db2 = db1\<lparr>products := snd upd\<rparr>
                   in if fst upd then (JsonError 500 ''Failed to create order'', db2)
                      else (Json 201 order,
                            (case oid of
                               None \<Rightarrow> db2
                             | Some k \<Rightarrow> db2\<lparr>offers := incrementOfferUsage (offers db2) k\<rparr>)))))"

section \<open>Order updates\<close>

text \<open>\<open>db.order.findUnique({ where: { id } })\<close>.\<close>

definition order_findUnique :: "Db \<Rightarrow> nat \<Rightarrow> Order option" where
  "order_findUnique db i = (if i < length (orders db) then Some (orders db ! i) else None)"

text \<open>\<open>db.order.update({ where: { id }, data: validatedData })\<close>, for the status (the
  payment status and the notes of the update have no part in the stock logic and are
  left out of the model). A request without a status keeps the stored one.\<close>

definition order_update_status :: "Db \<Rightarrow> nat \<Rightarrow> OrderStatus option \<Rightarrow> Order Response \<times> Db" where
  "order_update_status db i newStatus =
     (let updated = (case newStatus of
                       None \<Rightarrow> orders db ! i
                     | Some s \<Rightarrow> (orders db ! i)\<lparr>status := s\<rparr>)
      in (Json 200 updated, db\<lparr>orders := (orders db)[i := updated]\<rparr>))"

text \<open>A stock check of the reinstatement: the product exists and has at least the
  item's quantity in stock.\<close>

definition stockCheck :: "(string \<rightharpoonup> Product) \<Rightarrow> OrderItem \<Rightarrow> bool" where
  "stockCheck tbl it =
     (case tbl (productId it) of None \<Rightarrow> False | Some p \<Rightarrow> stock p \<ge> quantity it)"

text \<open>
  PUT /api/admin/orders/[id]: on a cancellation the stock of every item is restored;
  on a move out of \<open>CANCELLED\<close> the stock of every item is checked, then deducted.
  \<open>admin\<close> says whether the caller passed the admin check; a caller who did not is
  answered by that check (401 without a valid token, 403 without the admin role) and
  the store is not touched: the model gives the 403 for both.
\<close>

definition PUT_admin_order ::
  "Db \<Rightarrow> bool \<Rightarrow> nat \<Rightarrow> OrderStatus option \<Rightarrow> Order Response \<times> Db" where
  "PUT_admin_order db admin i newStatus =
     (if \<not> admin then (JsonError 403 ''Admin access required'', db)
      else case order_findUnique db i of
        None \<Rightarrow> (JsonError 404 ''Order not found'', db)
      | Some existingOrder \<Rightarrow>
          (let r1 = (if newStatus = Some CANCELLED \<and> status existingOrder \<noteq> CANCELLED
                     then update_stock_all (products db)
                            (map (\<lambda>it. (productId it, quantity it)) (items existingOrder))
                     else (False, products db));
               db1 = db\<lparr>products := snd r1\<rparr>
           in if fst r1 then (JsonError 500 ''Failed to update order'', db1)
              else if status existingOrder = CANCELLED \<and> newStatus \<noteq> Some CANCELLED
              then
                (if list_ex (\<lambda>it. \<not> stockCheck (products db1) it) (items existingOrder)
                 then (JsonError 400 ''Insufficient stock for one or more items'', db1)
                 else
                   (let r2 = update_stock_all (products db1)
                               (map (\<lambda>it. (productId it, - quantity it)) (items existingOrder));
                        db2 = db1\<lparr>products := snd r2\<rparr>
                    in if fst r2 then (JsonError 500 ''Failed to update order'', db2)
                       else order_update_status db2 i newStatus))
              else order_update_status db1 i newStatus))"

text \<open>
  PUT /api/orders/[id]: on a cancellation the stock of every item is restored, one item
  after the other. This handler has no branch for a move out of \<open>CANCELLED\<close>.
\<close>

definition PUT_order ::
  "Db \<Rightarrow> bool \<Rightarrow> nat \<Rightarrow> OrderStatus option \<Rightarrow> Order Response \<times> Db" where
  "PUT_order db admin i newStatus =
     (if \<not> admin then (JsonError 403 ''Admin access required'', db)
      else case order_findUnique db i of
        None \<Rightarrow> (JsonError 404 ''Order not found'', db)
      | Some existingOrder \<Rightarrow>
          (let r1 = (if newStatus = Some CANCELLED \<and> status existingOrder \<noteq> CANCELLED
                     then update_stock_each (products db)
                            (map (\<lambda>it. (productId it, quantity it)) (items existingOrder))
                     else (False, products db));
               db1 = db\<lparr>products := snd r1\<rparr>
           in if fst r1 then (JsonError 500 ''Failed to update order'', db1)
              else order_update_status db1 i newStatus))"

section \<open>Sequences of order operations\<close>

datatype Op =
    Create int "string option" OrderRequest
  | AdminPut bool nat "OrderStatus option"
  | Put bool nat "OrderStatus option"

fun step :: "Db \<Rightarrow> Op \<Rightarrow> Db" where
  "step db (Create now auth req) = snd (POST_order db now auth req)"
| "step db (AdminPut admin i st) = snd (PUT_admin_order db admin i st)"
| "step db (Put admin i st) = snd (PUT_order db admin i st)"

definition run :: "Db \<Rightarrow> Op list \<Rightarrow> Db" where
  "run db ops = foldl step db ops"

section \<open>Reviews (POST /api/reviews)\<close>

text \<open>\<open>updateProductRating(productId)\<close>: re-reads the active reviews of the product and
  stores their mean (0 when there are none) and their number on the product. An update
  of a product that does not exist throws inside the function's own \<open>try\<close>.\<close>

definition updateProductRating :: "Db \<Rightarrow> string \<Rightarrow> Db" where
  "updateProductRating db pid =
     (let rs = filter (\<lambda>r. review_productId r = pid \<and> review_isActive r) (reviews db);
          totalRating = foldl (\<lambda>s r. s + review_rating r) 0 rs;
          averageRating = (if length rs > 0 then of_int totalRating / of_nat (length rs) else 0)
      in case products db pid of
           None \<Rightarrow> db
         | Some p \<Rightarrow>
             db\<lparr>products := (products db)(pid \<mapsto> p\<lparr>rating := averageRating, reviewCount := length rs\<rparr>)\<rparr>)"

text \<open>The request schema: the rating is an integer from 1 to 5.\<close>

definition reviewSchema_ok :: "ReviewRequest \<Rightarrow> bool" where
  "reviewSchema_ok req = (1 \<le> rev_rating req \<and> rev_rating req \<le> 5)"

text \<open>The active reviews of a product, and the key that is unique among reviews.\<close>

definition active_reviews :: "Db \<Rightarrow> string \<Rightarrow> Review list" where
  "active_reviews db pid =
     filter (\<lambda>r. review_productId r = pid \<and> review_isActive r) (reviews db)"

definition review_key :: "Review \<Rightarrow> string \<times> string" where
  "review_key r = (review_userId r, review_productId r)"

text \<open>
  The POST handler. \<open>auth\<close> is the authenticated user's id, if any; \<open>activeDefault\<close>
  is the value the schema gives \<open>isActive\<close> on a new review (the handler does not set
  it, and the schema is not among the sources).
\<close>

definition POST_review ::
  "Db \<Rightarrow> bool \<Rightarrow> string option \<Rightarrow> ReviewRequest \<Rightarrow> Review Response \<times> Db" where
  "POST_review db activeDefault auth req =
     (if \<not> reviewSchema_ok req
      then (JsonError 400 ''Validation failed'', db)
      else case auth of
        None \<Rightarrow> (JsonError 401 ''Authentication required'', db)
      | Some uid \<Rightarrow>
          (case products db (rev_productId req) of
             None \<Rightarrow> (JsonError 404 ''Product not found'', db)
           | Some p \<Rightarrow>
               (case find (\<lambda>r. review_userId r = uid \<and> review_productId r = rev_productId req)
                       (reviews db) of
                  Some r \<Rightarrow> (JsonError 400 ''You have already reviewed this product'', db)
                | None \<Rightarrow>
                    (let review = \<lparr>review_userId = uid, review_productId = rev_productId req,
                                   review_rating = rev_rating req,
                                   review_isActive = activeDefault\<rparr>;
                         db1 = db\<lparr>reviews := reviews db @ [review]\<rparr>
                     in (Json 201 review, updateProductRating db1 (rev_productId req))))))"

section \<open>A worked scenario\<close>

text \<open>
  One product with five units in stock, the offer \<open>SUMMER20\<close> (20 percent, minimum
  amount 50, open from instant 0 to instant 100), and a request for five units at 20
  each that quotes the offer.
\<close>

definition scenario_offer :: Offer where
  "scenario_offer =
     \<lparr>offer_id = ''o1'', code = ''SUMMER20'', offer_type = PERCENTAGE, offer_value = 20,
      minAmount = Some 50, maxUses = None, usedCount = 0, offer_isActive = True,
      startsAt = 0, endsAt = 100, productOffers = []\<rparr>"

definition scenario_db :: Db where
  "scenario_db =
     \<lparr>products = [''A'' \<mapsto> \<lparr>product_name = ''Apple'', stock = 5, product_isActive = True,
                             rating = 0, reviewCount = 0\<rparr>],
      orders = [], offers = [scenario_offer], reviews = []\<rparr>"

definition scenario_request :: OrderRequest where
  "scenario_request =
     \<lparr>req_items = [\<lparr>req_productId = ''A'', req_quantity = 5, req_price = 20\<rparr>],
      shippingAddress = ''1 Main Street'', paymentMethod = ''card'',
      req_offerCode = Some ''SUMMER20''\<rparr>"

text \<open>
  A store with one cancelled order for two units of a product that is out of stock.
\<close>

definition cancelled_order :: Order where
  "cancelled_order =
     \<lparr>order_userId = ''u1'', status = CANCELLED, subtotal = 40, order_discount = 0,
      tax = 4, shipping = 599 / 100, total = 4999 / 100, offerId = None,
      items = [\<lparr>productId = ''A'', quantity = 2, price = 20, item_total = 40\<rparr>]\<rparr>"

definition cancelled_db :: Db where
  "cancelled_db =
     \<lparr>products = [''A'' \<mapsto> \<lparr>product_name = ''Apple'', stock = 0, product_isActive = True,
                             rating = 0, reviewCount = 0\<rparr>],
      orders = [cancelled_order], offers = [], reviews = []\<rparr>"

text \<open>
  A store with one pending order of two lines: two units of product A (stock 0) and one
  unit of product B (stock 7).
\<close>

definition two_line_db :: Db where
  "two_line_db =
     \<lparr>products =
        [''A'' \<mapsto> \<lparr>product_name = ''Apple'', stock = 0, product_isActive = True,
                   rating = 0, reviewCount = 0\<rparr>,
         ''B'' \<mapsto> \<lparr>product_name = ''Bread'', stock = 7, product_isActive = True,
                   rating = 0, reviewCount = 0\<rparr>],
      orders =
        [\<lparr>order_userId = ''u1'', status = PENDING, subtotal = 50, order_discount = 0,
          tax = 5, shipping = 599 / 100, total = 6099 / 100, offerId = None,
          items = [\<lparr>productId = ''A'', quantity = 2, price = 20, item_total = 40\<rparr>,
                   \<lparr>productId = ''B'', quantity = 1, price = 10, item_total = 10\<rparr>]\<rparr>],
      offers = [], reviews = []\<rparr>"

text \<open>A store with one product and one active review of it, with rating 5.\<close>

definition review_db :: Db where
  "review_db =
     \<lparr>products = [''A'' \<mapsto> \<lparr>product_name = ''Apple'', stock = 5, product_isActive = True,
                             rating = 5, reviewCount = 1\<rparr>],
      orders = [], offers = [],
      reviews = [\<lparr>review_userId = ''u2'', review_productId = ''A'', review_rating = 5,
                  review_isActive = True\<rparr>]\<rparr>"

section \<open>Properties of the offer evaluator\<close>

text \<open>
  C10. The evaluator never propagates an error: when the offer lookup throws, the
  result is the zero discount with the cart total unchanged and no offer, which is the
  very result of looking an unknown code up in an empty offer table.
\<close>

theorem validateAndApplyOffer_lookup_failure:
  "validateAndApplyOffer (Inl e) now offerCode cartTotal productIds =
     \<lparr>discount = 0, finalPrice = cartTotal, offer = None\<rparr> \<and>
   validateAndApplyOffer (Inl e) now offerCode cartTotal productIds =
     validateAndApplyOffer (Inr []) now offerCode cartTotal productIds"
  by (simp add: validateAndApplyOffer_def zero_discount_def)

theorem validateAndApplyOffer_lookup_failure_witness:
  "validateAndApplyOffer (Inl (DbError ''connection lost'')) 50 ''SUMMER20'' 100 None =
     \<lparr>discount = 0, finalPrice = 100, offer = None\<rparr>"
  using validateAndApplyOffer_lookup_failure [of "DbError ''connection lost''" 50 "''SUMMER20''" 100 None]
  by simp

text \<open>
  What does hold of the amounts: for a cart total that is not negative and offers whose
  value is positive (as the offer schema demands), the final price is the cart total
  less the discount and the discount is not negative; the discount stays within the cart
  total when no percentage offer has a value above 100.
\<close>

lemma validateAndApplyOffer_bounds:
  fixes rows now c cartTotal pids
  assumes "0 \<le> cartTotal" and "\<forall>ofr \<in> set rows. 0 < offer_value ofr"
  shows "finalPrice (validateAndApplyOffer (Inr rows) now c cartTotal pids) =
           cartTotal - discount (validateAndApplyOffer (Inr rows) now c cartTotal pids) \<and>
         0 \<le> discount (validateAndApplyOffer (Inr rows) now c cartTotal pids) \<and>
         ((\<forall>ofr \<in> set rows. offer_type ofr = PERCENTAGE \<longrightarrow> offer_value ofr \<le> 100) \<longrightarrow>
            discount (validateAndApplyOffer (Inr rows) now c cartTotal pids) \<le> cartTotal)"
proof (cases "find (offer_where now (toUpperCase c)) rows")
  case None
  then show ?thesis
    using assms(1) by (simp add: validateAndApplyOffer_def zero_discount_def)
next
  case (Some ofr)
  then have mem: "ofr \<in> set rows"
    by (auto simp: find_Some_iff)
  then have pos: "0 < offer_value ofr"
    using assms(2) by blast
  have pct: "0 \<le> cartTotal * (offer_value ofr / 100)"
    using pos assms(1) by simp
  have le: "offer_value ofr \<le> 100 \<Longrightarrow> cartTotal * (offer_value ofr / 100) \<le> cartTotal"
    using assms(1) by (simp add: mult_left_mono)
  show ?thesis
    using Some mem pos pct le assms(1)
    by (cases "offer_type ofr")
       (auto simp: validateAndApplyOffer_def zero_discount_def Let_def)
qed

text \<open>
  C4. The discount is claimed to stay within the cart subtotal for every offer. A
  percentage offer with value 150 passes the offer schema (the value only has to be
  positive), and on a cart of 100 the evaluator returns the discount 150 and the final
  price -50: the fixed-amount branch clamps the discount to the cart total, the
  percentage branch does not.
\<close>

theorem percentage_discount_exceeds_subtotal:
  "offerSchema_ok
     \<lparr>offer_id = ''o1'', code = ''BIG150'', offer_type = PERCENTAGE, offer_value = 150,
      minAmount = None, maxUses = None, usedCount = 0, offer_isActive = True, startsAt = 0,
      endsAt = 100, productOffers = []\<rparr> \<and>
   discount (validateAndApplyOffer
     (Inr [\<lparr>offer_id = ''o1'', code = ''BIG150'', offer_type = PERCENTAGE, offer_value = 150,
            minAmount = None, maxUses = None, usedCount = 0, offer_isActive = True,
            startsAt = 0, endsAt = 100, productOffers = []\<rparr>]) 50 ''BIG150'' 100 None) = 150 \<and>
   finalPrice (validateAndApplyOffer
     (Inr [\<lparr>offer_id = ''o1'', code = ''BIG150'', offer_type = PERCENTAGE, offer_value = 150,
            minAmount = None, maxUses = None, usedCount = 0, offer_isActive = True,
            startsAt = 0, endsAt = 100, productOffers = []\<rparr>]) 50 ''BIG150'' 100 None) = - 50"
  by (simp add: offerSchema_ok_def validateAndApplyOffer_def toUpperCase_def
      toUpperCase_char_def offer_where_def)

text \<open>
  C5, as the code has it. The window is closed on both sides: an offer is returned
  only if it is in the table under the upper-cased code, is active, has
  \<open>startsAt \<le> now \<le> endsAt\<close>, and has no \<open>maxUses\<close> or \<open>usedCount < maxUses\<close>. Whenever
  no offer is returned (unknown code, ineligible offer, failed lookup) the discount is 0
  and the final price is the cart total; no case yields an error. In particular, when
  the instant is strictly after \<open>endsAt\<close> of every offer, the result is the zero discount.
\<close>

theorem offer_eligibility_closed_window:
  fixes tbl now c cartTotal pids
  shows "(\<forall>ofr. offer (validateAndApplyOffer tbl now c cartTotal pids) = Some ofr \<longrightarrow>
            (\<exists>rows. tbl = Inr rows \<and> ofr \<in> set rows) \<and> code ofr = toUpperCase c \<and>
            offer_isActive ofr \<and> startsAt ofr \<le> now \<and> now \<le> endsAt ofr \<and>
            (maxUses ofr = None \<or> (\<exists>m. maxUses ofr = Some m \<and> usedCount ofr < m))) \<and>
         (offer (validateAndApplyOffer tbl now c cartTotal pids) = None \<longrightarrow>
            discount (validateAndApplyOffer tbl now c cartTotal pids) = 0 \<and>
            finalPrice (validateAndApplyOffer tbl now c cartTotal pids) = cartTotal) \<and>
         ((\<forall>rows. tbl = Inr rows \<longrightarrow> (\<forall>ofr \<in> set rows. endsAt ofr < now)) \<longrightarrow>
            validateAndApplyOffer tbl now c cartTotal pids =
              \<lparr>discount = 0, finalPrice = cartTotal, offer = None\<rparr>)"
proof (cases tbl)
  case (Inl e)
  then show ?thesis
    by (simp add: validateAndApplyOffer_def zero_discount_def)
next
  case (Inr rows)
  show ?thesis
  proof (cases "find (offer_where now (toUpperCase c)) rows")
    case None
    then show ?thesis
      using Inr by (simp add: validateAndApplyOffer_def zero_discount_def)
  next
    case (Some ofr)
    then have mem: "ofr \<in> set rows" and w: "offer_where now (toUpperCase c) ofr"
      by (auto simp: find_Some_iff)
    from w have el: "code ofr = toUpperCase c \<and>
            offer_isActive ofr \<and> startsAt ofr \<le> now \<and> now \<le> endsAt ofr \<and>
            (maxUses ofr = None \<or> (\<exists>m. maxUses ofr = Some m \<and> usedCount ofr < m))"
      by (auto simp: offer_where_def split: option.splits)
    have nlt: "\<not> (\<forall>ofr \<in> set rows. endsAt ofr < now)"
      using mem el by force
    show ?thesis
      using Some Inr mem el nlt
      by (auto simp: validateAndApplyOffer_def zero_discount_def Let_def)
  qed
qed

theorem offer_eligibility_closed_window_witness:
  "validateAndApplyOffer
     (Inr [\<lparr>offer_id = ''o1'', code = ''SUMMER20'', offer_type = PERCENTAGE, offer_value = 20,
            minAmount = Some 50, maxUses = None, usedCount = 0, offer_isActive = True,
            startsAt = 0, endsAt = 100, productOffers = []\<rparr>]) 101 ''summer20'' 100 None =
     \<lparr>discount = 0, finalPrice = 100, offer = None\<rparr>"
  using offer_eligibility_closed_window
    [of "Inr [\<lparr>offer_id = ''o1'', code = ''SUMMER20'', offer_type = PERCENTAGE,
               offer_value = 20, minAmount = Some 50, maxUses = None, usedCount = 0,
               offer_isActive = True, startsAt = 0, endsAt = 100, productOffers = []\<rparr>]"
        101 "''summer20''" 100 None]
  by simp

text \<open>
  The claim as stated has the window half-open: at the instant \<open>endsAt\<close> itself the
  discount should be 0. The lookup compares with \<open>gte\<close>, so at \<open>now = endsAt = 100\<close> the
  offer still applies.
\<close>

theorem offer_applies_at_endsAt:
  "discount (validateAndApplyOffer
     (Inr [\<lparr>offer_id = ''o1'', code = ''SUMMER20'', offer_type = PERCENTAGE, offer_value = 20,
            minAmount = Some 50, maxUses = None, usedCount = 0, offer_isActive = True,
            startsAt = 0, endsAt = 100, productOffers = []\<rparr>]) 100 ''SUMMER20'' 100 None) = 20"
  by (simp add: validateAndApplyOffer_def toUpperCase_def toUpperCase_char_def offer_where_def)

text \<open>
  C6. The lookup is claimed to match codes without regard to letter case. The lookup
  upper-cases the input, but offer creation stores the code as sent: an offer created
  with the code \<open>summer20\<close> is stored under \<open>summer20\<close>, and a lookup of \<open>summer20\<close>
  (or of any other spelling) searches for \<open>SUMMER20\<close> and finds nothing.
\<close>

theorem lowercase_stored_code_not_found:
  "fst (POST_offer \<lparr>products = Map.empty, orders = [], offers = [], reviews = []\<rparr> ''o1''
     \<lparr>offer_id = [], code = ''summer20'', offer_type = PERCENTAGE, offer_value = 20,
      minAmount = None, maxUses = None, usedCount = 0, offer_isActive = True, startsAt = 0,
      endsAt = 100, productOffers = []\<rparr>) =
     Json 201
       \<lparr>offer_id = ''o1'', code = ''summer20'', offer_type = PERCENTAGE, offer_value = 20,
        minAmount = None, maxUses = None, usedCount = 0, offer_isActive = True, startsAt = 0,
        endsAt = 100, productOffers = []\<rparr> \<and>
   validateAndApplyOffer
     (Inr (offers (snd (POST_offer
        \<lparr>products = Map.empty, orders = [], offers = [], reviews = []\<rparr> ''o1''
        \<lparr>offer_id = [], code = ''summer20'', offer_type = PERCENTAGE, offer_value = 20,
         minAmount = None, maxUses = None, usedCount = 0, offer_isActive = True,
         startsAt = 0, endsAt = 100, productOffers = []\<rparr>))))
     50 ''summer20'' 100 None =
     \<lparr>discount = 0, finalPrice = 100, offer = None\<rparr>"
  by (simp add: POST_offer_def offerSchema_ok_def validateAndApplyOffer_def toUpperCase_def
      toUpperCase_char_def offer_where_def zero_discount_def Let_def)

text \<open>
  The lookup does find an eligible offer under any spelling of its code when the code
  was stored in upper case.
\<close>

lemma uppercase_stored_code_found:
  assumes "code ofr = toUpperCase c" and "offer_isActive ofr"
    and "startsAt ofr \<le> now" and "now \<le> endsAt ofr" and "maxUses ofr = None"
  shows "find (offer_where now (toUpperCase c')) [ofr] = Some ofr \<longleftrightarrow>
         toUpperCase c' = toUpperCase c"
  using assms by (auto simp: offer_where_def)

section \<open>Lemmas on stock updates\<close>

lemma qty_for_Nil [simp]: "qty_for i [] = 0"
  by (simp add: qty_for_def)

lemma qty_for_Cons [simp]: "qty_for i ((j, d) # ds) = (if j = i then d else 0) + qty_for i ds"
  by (simp add: qty_for_def)

lemma adjust_stock_Nil [simp]: "adjust_stock tbl [] = tbl"
  by (rule ext) (simp add: adjust_stock_def option.map_ident)

lemma adjust_stock_upd:
  assumes "tbl i = Some p"
  shows "adjust_stock (tbl(i \<mapsto> p\<lparr>stock := stock p + d\<rparr>)) ds = adjust_stock tbl ((i, d) # ds)"
  using assms by (auto simp: adjust_stock_def fun_eq_iff)

lemma adjust_stock_missing:
  assumes "tbl i = None"
  shows "adjust_stock tbl ((i, d) # ds) = adjust_stock tbl ds"
proof (rule ext)
  fix j show "adjust_stock tbl ((i, d) # ds) j = adjust_stock tbl ds j"
    using assms by (cases "j = i") (auto simp: adjust_stock_def)
qed

lemma update_stock_all_snd: "snd (update_stock_all tbl ds) = adjust_stock tbl ds"
proof (induction ds arbitrary: tbl)
  case Nil
  show ?case by simp
next
  case (Cons a ds)
  obtain i d where a: "a = (i, d)" by (cases a)
  show ?case
  proof (cases "tbl i")
    case None
    have "update_stock_all tbl (a # ds) = (True, snd (update_stock_all tbl ds))"
      using None a by (simp add: product_update_stock_def)
    then show ?thesis
      using Cons.IH [of tbl] None a by (simp add: adjust_stock_missing)
  next
    case (Some p)
    define tbl' where "tbl' = tbl(i \<mapsto> p\<lparr>stock := stock p + d\<rparr>)"
    have step: "update_stock_all tbl (a # ds) = update_stock_all tbl' ds"
      using Some a by (simp add: product_update_stock_def tbl'_def)
    have adj: "adjust_stock tbl' ds = adjust_stock tbl (a # ds)"
      unfolding tbl'_def a using Some by (rule adjust_stock_upd)
    show ?thesis
      using step adj Cons.IH [of tbl'] by simp
  qed
qed

lemma update_stock_all_fst: "fst (update_stock_all tbl ds) \<longleftrightarrow> (\<exists>d \<in> set ds. tbl (fst d) = None)"
proof (induction ds arbitrary: tbl)
  case Nil
  show ?case by simp
next
  case (Cons a ds)
  obtain i d where a: "a = (i, d)" by (cases a)
  show ?case
  proof (cases "tbl i")
    case None
    then show ?thesis using a
      by (simp add: product_update_stock_def)
  next
    case (Some p)
    define tbl' where "tbl' = tbl(i \<mapsto> p\<lparr>stock := stock p + d\<rparr>)"
    have none_iff: "\<And>j. tbl' j = None \<longleftrightarrow> tbl j = None"
      using Some by (simp add: tbl'_def)
    have step: "update_stock_all tbl (a # ds) = update_stock_all tbl' ds"
      using Some a by (simp add: product_update_stock_def tbl'_def)
    have "fst (update_stock_all tbl' ds) \<longleftrightarrow> (\<exists>d \<in> set ds. tbl' (fst d) = None)"
      by (rule Cons.IH)
    then show ?thesis
      using step none_iff Some a by simp
  qed
qed

lemma update_stock_each_present:
  assumes "\<forall>d \<in> set ds. tbl (fst d) \<noteq> None"
  shows "update_stock_each tbl ds = (False, adjust_stock tbl ds)"
  using assms
proof (induction ds arbitrary: tbl)
  case Nil
  show ?case by simp
next
  case (Cons a ds)
  obtain i d where a: "a = (i, d)" by (cases a)
  from Cons.prems a obtain p where p: "tbl i = Some p" by auto
  define tbl' where "tbl' = tbl(i \<mapsto> p\<lparr>stock := stock p + d\<rparr>)"
  have none_iff: "\<And>j. tbl' j = None \<longleftrightarrow> tbl j = None"
    using p by (simp add: tbl'_def)
  have step: "update_stock_each tbl (a # ds) = update_stock_each tbl' ds"
    using p a by (simp add: product_update_stock_def tbl'_def)
  have adj: "adjust_stock tbl' ds = adjust_stock tbl (a # ds)"
    unfolding tbl'_def a using p by (rule adjust_stock_upd)
  have "\<forall>e \<in> set ds. tbl' (fst e) \<noteq> None"
    using Cons.prems none_iff by simp
  then have "update_stock_each tbl' ds = (False, adjust_stock tbl' ds)"
    by (rule Cons.IH)
  then show ?case
    using step adj by simp
qed

lemma update_stock_each_prefix:
  "\<exists>ds'. snd (update_stock_each tbl ds) = adjust_stock tbl ds' \<and> set ds' \<subseteq> set ds"
proof (induction ds arbitrary: tbl)
  case Nil
  show ?case by simp
next
  case (Cons a ds)
  obtain i d where a: "a = (i, d)" by (cases a)
  show ?case
  proof (cases "tbl i")
    case None
    have "snd (update_stock_each tbl (a # ds)) = adjust_stock tbl []"
      using None a by (simp add: product_update_stock_def)
    then show ?thesis by (metis empty_set empty_subsetI)
  next
    case (Some p)
    define tbl' where "tbl' = tbl(i \<mapsto> p\<lparr>stock := stock p + d\<rparr>)"
    have step: "update_stock_each tbl (a # ds) = update_stock_each tbl' ds"
      using Some a by (simp add: product_update_stock_def tbl'_def)
    have adj: "\<And>es. adjust_stock tbl' es = adjust_stock tbl (a # es)"
      unfolding tbl'_def a using Some by (rule adjust_stock_upd)
    obtain ds' where ds': "snd (update_stock_each tbl' ds) = adjust_stock tbl' ds'"
      "set ds' \<subseteq> set ds"
      using Cons.IH [of tbl'] by blast
    have "snd (update_stock_each tbl (a # ds)) = adjust_stock tbl (a # ds') \<and>
          set (a # ds') \<subseteq> set (a # ds)"
      using step adj ds' by auto
    then show ?thesis by blast
  qed
qed

lemma qty_for_nonneg: "\<forall>d \<in> set ds. 0 \<le> snd d \<Longrightarrow> 0 \<le> qty_for i ds"
  by (induction ds) auto

lemma stock_nonneg_adjust_incr:
  assumes "stock_nonneg tbl" and "\<forall>d \<in> set ds. 0 \<le> snd d"
  shows "stock_nonneg (adjust_stock tbl ds)"
  unfolding stock_nonneg_def
proof (intro allI impI)
  fix i p assume "adjust_stock tbl ds i = Some p"
  then obtain q where q: "tbl i = Some q" and p: "p = q\<lparr>stock := stock q + qty_for i ds\<rparr>"
    by (auto simp: adjust_stock_def)
  have "0 \<le> stock q" using assms(1) q by (simp add: stock_nonneg_def)
  moreover have "0 \<le> qty_for i ds" using assms(2) by (rule qty_for_nonneg)
  ultimately show "0 \<le> stock p" using p by simp
qed

lemma qty_for_distinct:
  "distinct (map fst ds) \<Longrightarrow> qty_for i ds = (case map_of ds i of None \<Rightarrow> 0 | Some d \<Rightarrow> d)"
proof (induction ds)
  case Nil
  show ?case by simp
next
  case (Cons a ds)
  obtain j d where a: "a = (j, d)" by (cases a)
  show ?case
  proof (cases "j = i")
    case True
    then have "i \<notin> fst ` set ds" using Cons.prems a by auto
    then have "map_of ds i = None" by (simp add: map_of_eq_None_iff)
    then show ?thesis using Cons a True by simp
  next
    case False
    then show ?thesis using Cons a by simp
  qed
qed

lemma stock_nonneg_adjust_decr:
  assumes "stock_nonneg tbl" and "distinct (map fst ds)"
    and "\<forall>d \<in> set ds. \<forall>p. tbl (fst d) = Some p \<longrightarrow> 0 \<le> stock p + snd d"
  shows "stock_nonneg (adjust_stock tbl ds)"
  unfolding stock_nonneg_def
proof (intro allI impI)
  fix i p assume "adjust_stock tbl ds i = Some p"
  then obtain q where q: "tbl i = Some q" and p: "p = q\<lparr>stock := stock q + qty_for i ds\<rparr>"
    by (auto simp: adjust_stock_def)
  show "0 \<le> stock p"
  proof (cases "map_of ds i")
    case None
    then have "qty_for i ds = 0" using assms(2) by (simp add: qty_for_distinct)
    then show ?thesis using assms(1) q p by (simp add: stock_nonneg_def)
  next
    case (Some d)
    then have "(i, d) \<in> set ds" by (rule map_of_SomeD)
    then have "0 \<le> stock q + d" using assms(3) q by force
    moreover have "qty_for i ds = d" using assms(2) Some by (simp add: qty_for_distinct)
    ultimately show ?thesis using p by simp
  qed
qed

section \<open>Lemmas on the product lookup and the stock check\<close>

lemma findMany_length_le: "length (product_findMany_active tbl ids) \<le> length ids"
proof -
  have "length (product_findMany_active tbl ids) \<le> length (remdups ids)"
    by (simp add: product_findMany_active_def List.map_filter_def)
  also have "\<dots> \<le> length ids" by (rule length_remdups_leq)
  finally show ?thesis .
qed

lemma findMany_length_eq:
  "length (product_findMany_active tbl ids) = length ids \<longleftrightarrow>
     distinct ids \<and> (\<forall>i \<in> set ids. \<exists>p. tbl i = Some p \<and> product_isActive p)"
proof -
  define P where "P = (\<lambda>i. (case tbl i of None \<Rightarrow> None
             | Some p \<Rightarrow> if product_isActive p then Some (i, p) else None) \<noteq> None)"
  have len: "length (product_findMany_active tbl ids) = length (filter P (remdups ids))"
    by (simp add: product_findMany_active_def List.map_filter_def P_def)
  have P_iff: "\<And>i. P i \<longleftrightarrow> (\<exists>p. tbl i = Some p \<and> product_isActive p)"
    by (auto simp: P_def split: option.splits)
  have le1: "length (filter P (remdups ids)) \<le> length (remdups ids)" by simp
  have le2: "length (remdups ids) \<le> length ids" by (rule length_remdups_leq)
  show ?thesis
  proof
    assume eq: "length (product_findMany_active tbl ids) = length ids"
    then have e1: "length (filter P (remdups ids)) = length (remdups ids)"
      and e2: "length (remdups ids) = length ids"
      using len le1 le2 by linarith+
    from e2 have d: "distinct ids"
      by (simp add: length_remdups_eq remdups_id_iff_distinct)
    have "\<forall>i \<in> set (remdups ids). P i"
    proof (rule ccontr)
      assume "\<not> (\<forall>i \<in> set (remdups ids). P i)"
      then obtain i where "i \<in> set (remdups ids)" "\<not> P i" by blast
      then have "length (filter P (remdups ids)) < length (remdups ids)"
        by (rule length_filter_less)
      then show False using e1 by simp
    qed
    then show "distinct ids \<and> (\<forall>i \<in> set ids. \<exists>p. tbl i = Some p \<and> product_isActive p)"
      using d P_iff by simp
  next
    assume a: "distinct ids \<and> (\<forall>i \<in> set ids. \<exists>p. tbl i = Some p \<and> product_isActive p)"
    then have r: "remdups ids = ids" by (simp add: distinct_remdups_id)
    have f: "filter P ids = ids" using a P_iff by (simp add: filter_id_conv)
    show "length (product_findMany_active tbl ids) = length ids"
      unfolding len r f ..
  qed
qed

lemma find_map_filter_key:
  assumes "\<And>j q. f j = Some q \<Longrightarrow> fst q = j"
  shows "find (\<lambda>q. fst q = i) (List.map_filter f xs) = (if i \<in> set xs then f i else None)"
proof (induction xs)
  case Nil
  show ?case by simp
next
  case (Cons x xs)
  show ?case
  proof (cases "f x")
    case None
    then show ?thesis using Cons by auto
  next
    case (Some q)
    then have "fst q = x" by (rule assms)
    then show ?thesis using Cons Some by auto
  qed
qed

lemma find_findMany:
  "find (\<lambda>q. fst q = i) (product_findMany_active tbl ids) =
     (if i \<in> set ids
      then (case tbl i of None \<Rightarrow> None
            | Some p \<Rightarrow> if product_isActive p then Some (i, p) else None)
      else None)"
proof -
  have "find (\<lambda>q. fst q = i) (product_findMany_active tbl ids) =
     (if i \<in> set (remdups ids)
      then (case tbl i of None \<Rightarrow> None
            | Some p \<Rightarrow> if product_isActive p then Some (i, p) else None)
      else None)"
    unfolding product_findMany_active_def
    by (rule find_map_filter_key) (auto split: option.splits if_splits)
  then show ?thesis by simp
qed

lemma check_stock_None:
  "check_stock ps its = None \<longleftrightarrow>
     (\<forall>it \<in> set its. \<forall>i p. find (\<lambda>q. fst q = req_productId it) ps = Some (i, p) \<longrightarrow>
        req_quantity it \<le> stock p)"
  by (induction its) (auto split: option.splits)

lemma check_stock_Some:
  "check_stock ps its = Some nm \<Longrightarrow>
     \<exists>it \<in> set its. \<exists>i p. find (\<lambda>q. fst q = req_productId it) ps = Some (i, p) \<and>
        stock p < req_quantity it \<and> nm = product_name p"
  by (induction its) (auto split: option.splits if_splits)

section \<open>Lemmas on order creation\<close>

lemma checks_pass_iff:
  "(length (product_findMany_active tbl (map req_productId its)) = length (map req_productId its) \<and>
    check_stock (product_findMany_active tbl (map req_productId its)) its = None) \<longleftrightarrow>
   (distinct (map req_productId its) \<and>
    (\<forall>it \<in> set its. \<exists>p. tbl (req_productId it) = Some p \<and> product_isActive p \<and>
        req_quantity it \<le> stock p))"
  unfolding findMany_length_eq check_stock_None find_findMany
  by (auto split: option.splits if_splits)

lemma check_stock_reports:
  assumes "check_stock (product_findMany_active tbl (map req_productId its)) its = Some nm"
  shows "\<exists>it \<in> set its. \<exists>p. tbl (req_productId it) = Some p \<and> stock p < req_quantity it \<and>
           nm = product_name p"
proof -
  from check_stock_Some [OF assms] obtain it i p where
    it: "it \<in> set its" and
    f: "find (\<lambda>q. fst q = req_productId it) (product_findMany_active tbl (map req_productId its)) = Some (i, p)"
    and lt: "stock p < req_quantity it" and nm: "nm = product_name p"
    by blast
  from f have "tbl (req_productId it) = Some p"
    unfolding find_findMany by (auto split: option.splits if_splits)
  then show ?thesis using it lt nm by blast
qed

lemma POST_order_unavailable:
  assumes "orderSchema_ok req"
    and "\<not> (distinct (map req_productId (req_items req)) \<and>
            (\<forall>it \<in> set (req_items req). \<exists>p. products db (req_productId it) = Some p \<and>
               product_isActive p))"
  shows "POST_order db now (Some uid) req =
           (JsonError 400 ''Some products are not available'', db)"
proof -
  have "length (product_findMany_active (products db) (map req_productId (req_items req))) \<noteq>
        length (map req_productId (req_items req))"
    using assms(2) unfolding findMany_length_eq by auto
  then show ?thesis using assms(1) by (simp add: POST_order_def Let_def)
qed

lemma POST_order_insufficient:
  assumes "orderSchema_ok req"
    and "distinct (map req_productId (req_items req))"
    and "\<forall>it \<in> set (req_items req). \<exists>p. products db (req_productId it) = Some p \<and>
               product_isActive p"
    and "\<exists>it \<in> set (req_items req). \<exists>p. products db (req_productId it) = Some p \<and>
               stock p < req_quantity it"
  shows "\<exists>it \<in> set (req_items req). \<exists>p. products db (req_productId it) = Some p \<and>
           stock p < req_quantity it \<and>
           POST_order db now (Some uid) req =
             (JsonError 400 (''Insufficient stock for product: '' @ product_name p), db)"
proof -
  let ?found = "product_findMany_active (products db) (map req_productId (req_items req))"
  have len: "length ?found = length (map req_productId (req_items req))"
    using assms(2,3) unfolding findMany_length_eq by auto
  have "check_stock ?found (req_items req) \<noteq> None"
  proof
    assume "check_stock ?found (req_items req) = None"
    with len have "\<forall>it \<in> set (req_items req). \<exists>p. products db (req_productId it) = Some p \<and>
        product_isActive p \<and> req_quantity it \<le> stock p"
      using checks_pass_iff [of "products db" "req_items req"] by blast
    with assms(4) show False by force
  qed
  then obtain nm where nm: "check_stock ?found (req_items req) = Some nm" by auto
  from check_stock_reports [OF nm] obtain it p where
    "it \<in> set (req_items req)" "products db (req_productId it) = Some p"
    "stock p < req_quantity it" "nm = product_name p" by blast
  moreover have "POST_order db now (Some uid) req =
      (JsonError 400 (''Insufficient stock for product: '' @ nm), db)"
    using assms(1) len nm by (simp add: POST_order_def Let_def)
  ultimately show ?thesis by blast
qed

lemma POST_order_success:
  assumes "orderSchema_ok req"
    and "distinct (map req_productId (req_items req))"
    and "\<forall>it \<in> set (req_items req). \<exists>p. products db (req_productId it) = Some p \<and>
               product_isActive p \<and> req_quantity it \<le> stock p"
  shows "\<exists>ord. fst (POST_order db now (Some uid) req) = Json 201 ord \<and>
           orders (snd (POST_order db now (Some uid) req)) = orders db @ [ord] \<and>
           products (snd (POST_order db now (Some uid) req)) =
             adjust_stock (products db)
               (map (\<lambda>it. (req_productId it, - req_quantity it)) (req_items req)) \<and>
           reviews (snd (POST_order db now (Some uid) req)) = reviews db \<and>
           items ord = map make_orderItem (req_items req) \<and> status ord = PENDING \<and>
           tax ord = subtotal ord * (1 / 10) \<and>
           shipping ord = (if subtotal ord > 50 then 0 else 599 / 100) \<and>
           total ord = subtotal ord - order_discount ord + tax ord + shipping ord"
proof -
  let ?found = "product_findMany_active (products db) (map req_productId (req_items req))"
  let ?ds = "map (\<lambda>it. (req_productId it, - req_quantity it)) (req_items req)"
  have len: "length ?found = length (req_items req)"
    and chk: "check_stock ?found (req_items req) = None"
    using assms(2,3) checks_pass_iff [of "products db" "req_items req"] by auto
  have "\<forall>d \<in> set ?ds. products db (fst d) \<noteq> None"
    using assms(3) by auto
  then have upd: "update_stock_each (products db) ?ds = (False, adjust_stock (products db) ?ds)"
    by (rule update_stock_each_present)
  show ?thesis
    using assms(1) len chk upd
    by (simp add: POST_order_def Let_def order_tax_def order_shipping_def
        default_order_status_def split: option.splits)
qed

lemma POST_order_trichotomy:
  assumes "fst (POST_order db now auth req) = Json 201 ord"
  shows "orderSchema_ok req \<and> (\<exists>uid. auth = Some uid) \<and>
         distinct (map req_productId (req_items req)) \<and>
         (\<forall>it \<in> set (req_items req). \<exists>p. products db (req_productId it) = Some p \<and>
               product_isActive p \<and> req_quantity it \<le> stock p)"
proof -
  have s: "orderSchema_ok req" using assms by (auto simp: POST_order_def split: if_splits)
  obtain uid where a: "auth = Some uid"
    using assms s by (cases auth) (auto simp: POST_order_def)
  have d: "distinct (map req_productId (req_items req)) \<and>
            (\<forall>it \<in> set (req_items req). \<exists>p. products db (req_productId it) = Some p \<and>
               product_isActive p)"
  proof (rule ccontr)
    assume "\<not> ?thesis"
    from POST_order_unavailable [OF s this] show False using assms a by simp
  qed
  have "\<not> (\<exists>it \<in> set (req_items req). \<exists>p. products db (req_productId it) = Some p \<and>
               stock p < req_quantity it)"
  proof
    assume "\<exists>it \<in> set (req_items req). \<exists>p. products db (req_productId it) = Some p \<and>
               stock p < req_quantity it"
    with POST_order_insufficient [OF s _ _ this, of now uid] d show False
      using assms a by auto
  qed
  then have "\<forall>it \<in> set (req_items req). \<exists>p. products db (req_productId it) = Some p \<and>
               product_isActive p \<and> req_quantity it \<le> stock p"
    using d by force
  then show ?thesis using s a d by blast
qed

lemma POST_order_failure_unchanged:
  assumes "\<And>ord. fst (POST_order db now auth req) \<noteq> Json 201 ord"
  shows "snd (POST_order db now auth req) = db"
proof (cases "orderSchema_ok req \<and> auth \<noteq> None")
  case False
  then show ?thesis by (auto simp: POST_order_def split: option.splits)
next
  case True
  then obtain uid where a: "auth = Some uid" and s: "orderSchema_ok req" by auto
  show ?thesis
  proof (cases "distinct (map req_productId (req_items req)) \<and>
            (\<forall>it \<in> set (req_items req). \<exists>p. products db (req_productId it) = Some p \<and>
               product_isActive p)")
    case False
    from POST_order_unavailable [OF s this] show ?thesis using a by simp
  next
    case d: True
    show ?thesis
    proof (cases "\<exists>it \<in> set (req_items req). \<exists>p. products db (req_productId it) = Some p \<and>
               stock p < req_quantity it")
      case True
      with POST_order_insufficient [OF s _ _ True, of now uid] d show ?thesis
        using a by auto
    next
      case False
      then have "\<forall>it \<in> set (req_items req). \<exists>p. products db (req_productId it) = Some p \<and>
               product_isActive p \<and> req_quantity it \<le> stock p"
        using d by force
      from POST_order_success [OF s _ this, of now uid] d assms a show ?thesis by auto
    qed
  qed
qed

section \<open>Properties of order creation\<close>

lemmas scenario_defs = scenario_db_def scenario_request_def scenario_offer_def
lemmas handler_defs = POST_order_def orderSchema_ok_def product_findMany_active_def
  default_order_status_def
  List.map_filter_def validateAndApplyOffer_def toUpperCase_def toUpperCase_char_def
  offer_where_def zero_discount_def make_orderItem_def order_tax_def order_shipping_def
  product_update_stock_def incrementOfferUsage_def Let_def

text \<open>The scenario, evaluated.\<close>

lemma scenario_created:
  "fst (POST_order scenario_db 50 (Some ''u1'') scenario_request) =
     Json 201
       \<lparr>order_userId = ''u1'', status = PENDING, subtotal = 100, order_discount = 20,
        tax = 10, shipping = 0, total = 90, offerId = Some ''o1'',
        items = [\<lparr>productId = ''A'', quantity = 5, price = 20, item_total = 100\<rparr>]\<rparr>"
  by (simp add: scenario_defs handler_defs)



lemma qty_for_notin: "i \<notin> fst ` set ds \<Longrightarrow> qty_for i ds = 0"
  by (induction ds) auto

lemma adjust_stock_other:
  "i \<notin> fst ` set ds \<Longrightarrow> adjust_stock tbl ds i = tbl i"
  by (cases "tbl i") (simp_all add: adjust_stock_def qty_for_notin)

lemma adjust_stock_item:
  assumes "distinct (map fst ds)" and "(i, d) \<in> set ds" and "tbl i = Some p"
  shows "adjust_stock tbl ds i = Some (p\<lparr>stock := stock p + d\<rparr>)"
proof -
  have "map_of ds i = Some d" using assms(1,2) by (rule map_of_is_SomeI)
  then have "qty_for i ds = d" using assms(1) by (simp add: qty_for_distinct)
  then show ?thesis using assms(3) by (simp add: adjust_stock_def)
qed

text \<open>
  The stock loop stops at the first line whose quantity exceeds the stock and reports
  the name of that line's product.
\<close>

lemma check_stock_first:
  assumes "\<forall>j \<in> set pre. \<forall>i q. find (\<lambda>r. fst r = req_productId j) ps = Some (i, q) \<longrightarrow>
             req_quantity j \<le> stock q"
    and "find (\<lambda>r. fst r = req_productId it) ps = Some (i, p)"
    and "stock p < req_quantity it"
  shows "check_stock ps (pre @ it # post) = Some (product_name p)"
  using assms(1)
proof (induction pre)
  case Nil
  show ?case using assms(2,3) by simp
next
  case (Cons j pre)
  then have rest: "check_stock ps (pre @ it # post) = Some (product_name p)" by simp
  show ?case
  proof (cases "find (\<lambda>r. fst r = req_productId j) ps")
    case None
    then show ?thesis using rest by simp
  next
    case (Some r)
    obtain k q where r: "r = (k, q)" by (cases r)
    have "req_quantity j \<le> stock q" using Cons.prems Some r by simp
    then show ?thesis using Some r rest by simp
  qed
qed

lemma POST_order_first_insufficient:
  assumes "orderSchema_ok req"
    and "distinct (map req_productId (req_items req))"
    and "\<forall>it \<in> set (req_items req). \<exists>p. products db (req_productId it) = Some p \<and>
               product_isActive p"
    and "req_items req = pre @ it # post"
    and "\<forall>j \<in> set pre. \<forall>q. products db (req_productId j) = Some q \<longrightarrow>
            req_quantity j \<le> stock q"
    and "products db (req_productId it) = Some p"
    and "stock p < req_quantity it"
  shows "POST_order db now (Some uid) req =
           (JsonError 400 (''Insufficient stock for product: '' @ product_name p), db)"
proof -
  let ?ids = "map req_productId (req_items req)"
  let ?found = "product_findMany_active (products db) ?ids"
  have len: "length ?found = length ?ids"
    using assms(2,3) unfolding findMany_length_eq by auto
  have it: "it \<in> set (req_items req)" using assms(4) by simp
  then have act: "product_isActive p" using assms(3,6) by force
  have f_it: "find (\<lambda>r. fst r = req_productId it) ?found = Some (req_productId it, p)"
    unfolding find_findMany using it assms(6) act by simp
  have f_pre: "\<forall>j \<in> set pre. \<forall>i q. find (\<lambda>r. fst r = req_productId j) ?found = Some (i, q) \<longrightarrow>
             req_quantity j \<le> stock q"
  proof (intro ballI allI impI)
    fix j i q
    assume j: "j \<in> set pre"
      and f: "find (\<lambda>r. fst r = req_productId j) ?found = Some (i, q)"
    from f have "products db (req_productId j) = Some q"
      unfolding find_findMany by (auto split: option.splits if_splits)
    then show "req_quantity j \<le> stock q" using assms(5) j by blast
  qed
  have "check_stock ?found (pre @ it # post) = Some (product_name p)"
    using f_pre f_it assms(7) by (rule check_stock_first)
  then have chk: "check_stock ?found (req_items req) = Some (product_name p)"
    using assms(4) by simp
  show ?thesis
    using assms(1) len chk by (simp add: POST_order_def Let_def)
qed

text \<open>
  C8, as the code has it. For a well-formed request of an authenticated user:
  if some requested product is missing or inactive, or a product is requested on two
  lines, the response is the 400 \<open>Some products are not available\<close>, which names no
  product, and the store is unchanged; if every requested product exists and is active,
  no product is requested twice and some quantity exceeds the product's stock, the
  response is the 400 \<open>Insufficient stock for product:\<close> followed by the name of the
  product of the first such line of the request, and the store is unchanged; a 201 is
  returned only if every product exists, is active and has enough stock, and then the
  order with its items is appended, the stock of each item's product is lowered by the
  item's quantity and no other product changes; and a request with one line per product
  whose products all exist, are active and have enough stock does get the 201. In
  short: whenever some requested product is missing, inactive or short of stock, the
  response is a 400 and the store is unchanged.
\<close>

theorem POST_order_all_or_nothing:
  assumes "orderSchema_ok req"
  shows
    "((\<exists>it \<in> set (req_items req).
         (case products db (req_productId it) of None \<Rightarrow> True | Some p \<Rightarrow> \<not> product_isActive p)) \<longrightarrow>
        POST_order db now (Some uid) req =
          (JsonError 400 ''Some products are not available'', db)) \<and>
     (\<not> distinct (map req_productId (req_items req)) \<longrightarrow>
        POST_order db now (Some uid) req =
          (JsonError 400 ''Some products are not available'', db)) \<and>
     (distinct (map req_productId (req_items req)) \<and>
      (\<forall>it \<in> set (req_items req). \<exists>p. products db (req_productId it) = Some p \<and>
           product_isActive p) \<longrightarrow>
        (\<forall>pre it post p.
           req_items req = pre @ it # post \<and>
           (\<forall>j \<in> set pre. \<forall>q. products db (req_productId j) = Some q \<longrightarrow>
              req_quantity j \<le> stock q) \<and>
           products db (req_productId it) = Some p \<and> stock p < req_quantity it \<longrightarrow>
           POST_order db now (Some uid) req =
             (JsonError 400 (''Insufficient stock for product: '' @ product_name p), db))) \<and>
     (\<forall>ord. fst (POST_order db now (Some uid) req) = Json 201 ord \<longrightarrow>
        (\<forall>it \<in> set (req_items req). \<exists>p. products db (req_productId it) = Some p \<and>
           product_isActive p \<and> req_quantity it \<le> stock p \<and>
           products (snd (POST_order db now (Some uid) req)) (req_productId it) =
             Some (p\<lparr>stock := stock p - req_quantity it\<rparr>)) \<and>
        (\<forall>i. i \<notin> req_productId ` set (req_items req) \<longrightarrow>
           products (snd (POST_order db now (Some uid) req)) i = products db i) \<and>
        orders (snd (POST_order db now (Some uid) req)) = orders db @ [ord] \<and>
        items ord = map make_orderItem (req_items req)) \<and>
     (distinct (map req_productId (req_items req)) \<and>
      (\<forall>it \<in> set (req_items req). \<exists>p. products db (req_productId it) = Some p \<and>
           product_isActive p \<and> req_quantity it \<le> stock p) \<longrightarrow>
        (\<exists>ord. fst (POST_order db now (Some uid) req) = Json 201 ord)) \<and>
     ((\<exists>it \<in> set (req_items req).
         (case products db (req_productId it) of
            None \<Rightarrow> True
          | Some p \<Rightarrow> \<not> product_isActive p \<or> stock p < req_quantity it)) \<longrightarrow>
        snd (POST_order db now (Some uid) req) = db \<and>
        (\<exists>msg. fst (POST_order db now (Some uid) req) = JsonError 400 msg))"
proof -
  have unavailable: "(\<exists>it \<in> set (req_items req).
         (case products db (req_productId it) of None \<Rightarrow> True | Some p \<Rightarrow> \<not> product_isActive p)) \<longrightarrow>
        POST_order db now (Some uid) req =
          (JsonError 400 ''Some products are not available'', db)"
  proof
    assume "\<exists>it \<in> set (req_items req).
         (case products db (req_productId it) of None \<Rightarrow> True | Some p \<Rightarrow> \<not> product_isActive p)"
    then have "\<not> (distinct (map req_productId (req_items req)) \<and>
            (\<forall>it \<in> set (req_items req). \<exists>p. products db (req_productId it) = Some p \<and>
               product_isActive p))"
      by (auto split: option.splits)
    with assms show "POST_order db now (Some uid) req =
          (JsonError 400 ''Some products are not available'', db)"
      by (rule POST_order_unavailable)
  qed
  have duplicate: "\<not> distinct (map req_productId (req_items req)) \<longrightarrow>
        POST_order db now (Some uid) req =
          (JsonError 400 ''Some products are not available'', db)"
  proof
    assume "\<not> distinct (map req_productId (req_items req))"
    then have "\<not> (distinct (map req_productId (req_items req)) \<and>
            (\<forall>it \<in> set (req_items req). \<exists>p. products db (req_productId it) = Some p \<and>
               product_isActive p))"
      by simp
    with assms show "POST_order db now (Some uid) req =
          (JsonError 400 ''Some products are not available'', db)"
      by (rule POST_order_unavailable)
  qed
  have insufficient: "distinct (map req_productId (req_items req)) \<and>
      (\<forall>it \<in> set (req_items req). \<exists>p. products db (req_productId it) = Some p \<and>
           product_isActive p) \<longrightarrow>
        (\<forall>pre it post p.
           req_items req = pre @ it # post \<and>
           (\<forall>j \<in> set pre. \<forall>q. products db (req_productId j) = Some q \<longrightarrow>
              req_quantity j \<le> stock q) \<and>
           products db (req_productId it) = Some p \<and> stock p < req_quantity it \<longrightarrow>
           POST_order db now (Some uid) req =
             (JsonError 400 (''Insufficient stock for product: '' @ product_name p), db))"
  proof (intro impI allI)
    fix pre it post p
    assume av: "distinct (map req_productId (req_items req)) \<and>
      (\<forall>it \<in> set (req_items req). \<exists>p. products db (req_productId it) = Some p \<and>
           product_isActive p)"
      and first: "req_items req = pre @ it # post \<and>
           (\<forall>j \<in> set pre. \<forall>q. products db (req_productId j) = Some q \<longrightarrow>
              req_quantity j \<le> stock q) \<and>
           products db (req_productId it) = Some p \<and> stock p < req_quantity it"
    from av have d: "distinct (map req_productId (req_items req))"
      and a: "\<forall>it \<in> set (req_items req). \<exists>p. products db (req_productId it) = Some p \<and>
           product_isActive p" by blast+
    from first have s: "req_items req = pre @ it # post"
      and pre: "\<forall>j \<in> set pre. \<forall>q. products db (req_productId j) = Some q \<longrightarrow>
              req_quantity j \<le> stock q"
      and p: "products db (req_productId it) = Some p"
      and lt: "stock p < req_quantity it" by blast+
    from assms d a s pre p lt
    show "POST_order db now (Some uid) req =
             (JsonError 400 (''Insufficient stock for product: '' @ product_name p), db)"
      by (rule POST_order_first_insufficient)
  qed
  have created: "\<forall>ord. fst (POST_order db now (Some uid) req) = Json 201 ord \<longrightarrow>
        (\<forall>it \<in> set (req_items req). \<exists>p. products db (req_productId it) = Some p \<and>
           product_isActive p \<and> req_quantity it \<le> stock p \<and>
           products (snd (POST_order db now (Some uid) req)) (req_productId it) =
             Some (p\<lparr>stock := stock p - req_quantity it\<rparr>)) \<and>
        (\<forall>i. i \<notin> req_productId ` set (req_items req) \<longrightarrow>
           products (snd (POST_order db now (Some uid) req)) i = products db i) \<and>
        orders (snd (POST_order db now (Some uid) req)) = orders db @ [ord] \<and>
        items ord = map make_orderItem (req_items req)"
  proof (intro allI impI)
    fix ord
    assume created: "fst (POST_order db now (Some uid) req) = Json 201 ord"
    from POST_order_trichotomy [OF created] have
      d: "distinct (map req_productId (req_items req))"
      and ok: "\<forall>it \<in> set (req_items req). \<exists>p. products db (req_productId it) = Some p \<and>
               product_isActive p \<and> req_quantity it \<le> stock p"
      by blast+
    let ?ds = "map (\<lambda>it. (req_productId it, - req_quantity it)) (req_items req)"
    from POST_order_success [OF assms d ok, of now uid] created have
      prod: "products (snd (POST_order db now (Some uid) req)) = adjust_stock (products db) ?ds"
      and ords: "orders (snd (POST_order db now (Some uid) req)) = orders db @ [ord]"
      and its: "items ord = map make_orderItem (req_items req)"
      by auto
    have dd: "distinct (map fst ?ds)" using d by (simp add: comp_def)
    have lines: "\<forall>it \<in> set (req_items req). \<exists>p. products db (req_productId it) = Some p \<and>
           product_isActive p \<and> req_quantity it \<le> stock p \<and>
           products (snd (POST_order db now (Some uid) req)) (req_productId it) =
             Some (p\<lparr>stock := stock p - req_quantity it\<rparr>)"
    proof
      fix it assume it: "it \<in> set (req_items req)"
      with ok obtain p where p: "products db (req_productId it) = Some p"
        "product_isActive p" "req_quantity it \<le> stock p" by blast
      have "(req_productId it, - req_quantity it) \<in> set ?ds" using it by auto
      from adjust_stock_item [of ?ds "req_productId it" "- req_quantity it" "products db" p, OF dd this p(1)]
      show "\<exists>p. products db (req_productId it) = Some p \<and>
           product_isActive p \<and> req_quantity it \<le> stock p \<and>
           products (snd (POST_order db now (Some uid) req)) (req_productId it) =
             Some (p\<lparr>stock := stock p - req_quantity it\<rparr>)"
        using p prod by simp
    qed
    have others: "\<forall>i. i \<notin> req_productId ` set (req_items req) \<longrightarrow>
           products (snd (POST_order db now (Some uid) req)) i = products db i"
    proof (intro allI impI)
      fix i assume "i \<notin> req_productId ` set (req_items req)"
      then have "i \<notin> fst ` set ?ds" by (simp add: image_image)
      then show "products (snd (POST_order db now (Some uid) req)) i = products db i"
        unfolding prod by (rule adjust_stock_other)
    qed
    show "(\<forall>it \<in> set (req_items req). \<exists>p. products db (req_productId it) = Some p \<and>
           product_isActive p \<and> req_quantity it \<le> stock p \<and>
           products (snd (POST_order db now (Some uid) req)) (req_productId it) =
             Some (p\<lparr>stock := stock p - req_quantity it\<rparr>)) \<and>
        (\<forall>i. i \<notin> req_productId ` set (req_items req) \<longrightarrow>
           products (snd (POST_order db now (Some uid) req)) i = products db i) \<and>
        orders (snd (POST_order db now (Some uid) req)) = orders db @ [ord] \<and>
        items ord = map make_orderItem (req_items req)"
      using lines others ords its by blast
  qed
  have succeeds: "distinct (map req_productId (req_items req)) \<and>
      (\<forall>it \<in> set (req_items req). \<exists>p. products db (req_productId it) = Some p \<and>
           product_isActive p \<and> req_quantity it \<le> stock p) \<longrightarrow>
        (\<exists>ord. fst (POST_order db now (Some uid) req) = Json 201 ord)"
  proof
    assume "distinct (map req_productId (req_items req)) \<and>
      (\<forall>it \<in> set (req_items req). \<exists>p. products db (req_productId it) = Some p \<and>
           product_isActive p \<and> req_quantity it \<le> stock p)"
    then have d: "distinct (map req_productId (req_items req))"
      and ok: "\<forall>it \<in> set (req_items req). \<exists>p. products db (req_productId it) = Some p \<and>
               product_isActive p \<and> req_quantity it \<le> stock p" by blast+
    from POST_order_success [OF assms d ok, of now uid]
    show "\<exists>ord. fst (POST_order db now (Some uid) req) = Json 201 ord" by blast
  qed
  have fails: "(\<exists>it \<in> set (req_items req).
         (case products db (req_productId it) of
            None \<Rightarrow> True
          | Some p \<Rightarrow> \<not> product_isActive p \<or> stock p < req_quantity it)) \<longrightarrow>
        snd (POST_order db now (Some uid) req) = db \<and>
        (\<exists>msg. fst (POST_order db now (Some uid) req) = JsonError 400 msg)"
  proof
    assume bad: "\<exists>it \<in> set (req_items req).
         (case products db (req_productId it) of
            None \<Rightarrow> True
          | Some p \<Rightarrow> \<not> product_isActive p \<or> stock p < req_quantity it)"
    show "snd (POST_order db now (Some uid) req) = db \<and>
        (\<exists>msg. fst (POST_order db now (Some uid) req) = JsonError 400 msg)"
    proof (cases "distinct (map req_productId (req_items req)) \<and>
            (\<forall>it \<in> set (req_items req). \<exists>p. products db (req_productId it) = Some p \<and>
               product_isActive p)")
      case False
      from POST_order_unavailable [OF assms this] show ?thesis by simp
    next
      case True
      then have d: "distinct (map req_productId (req_items req))"
        and av: "\<forall>it \<in> set (req_items req). \<exists>p. products db (req_productId it) = Some p \<and>
               product_isActive p" by blast+
      from bad av have ins: "\<exists>it \<in> set (req_items req). \<exists>p.
          products db (req_productId it) = Some p \<and> stock p < req_quantity it"
        by (force split: option.splits)
      from POST_order_insufficient [OF assms d av ins, of now uid] obtain it p where
        "it \<in> set (req_items req)" "products db (req_productId it) = Some p"
        "stock p < req_quantity it"
        "POST_order db now (Some uid) req =
           (JsonError 400 (''Insufficient stock for product: '' @ product_name p), db)"
        by blast
      then show ?thesis by simp
    qed
  qed
  from unavailable duplicate insufficient created succeeds fails
  show ?thesis by (intro conjI)
qed

text \<open>
  The scenario's request is created and takes the five units; against the store with
  product A out of stock and seven units of product B, a request that is short on both
  lines is answered with the name of the product of its first line, in either order.
\<close>

lemma scenario_stock_taken:
  "products (snd (POST_order scenario_db 50 (Some ''u1'') scenario_request)) ''A'' =
     Some \<lparr>product_name = ''Apple'', stock = 0, product_isActive = True, rating = 0,
           reviewCount = 0\<rparr>"
  by (simp add: scenario_defs handler_defs)

lemma two_line_short_names_first:
  "fst (POST_order two_line_db 50 (Some ''u1'')
     \<lparr>req_items = [\<lparr>req_productId = ''A'', req_quantity = 1, req_price = 20\<rparr>,
                   \<lparr>req_productId = ''B'', req_quantity = 9, req_price = 10\<rparr>],
      shippingAddress = ''1 Main Street'', paymentMethod = ''card'', req_offerCode = None\<rparr>) =
     JsonError 400 ''Insufficient stock for product: Apple'' \<and>
   fst (POST_order two_line_db 50 (Some ''u1'')
     \<lparr>req_items = [\<lparr>req_productId = ''B'', req_quantity = 9, req_price = 10\<rparr>,
                   \<lparr>req_productId = ''A'', req_quantity = 1, req_price = 20\<rparr>],
      shippingAddress = ''1 Main Street'', paymentMethod = ''card'', req_offerCode = None\<rparr>) =
     JsonError 400 ''Insufficient stock for product: Bread''"
  by (simp add: two_line_db_def handler_defs)

theorem POST_order_all_or_nothing_witness:
  "orderSchema_ok scenario_request \<and>
   fst (POST_order scenario_db 50 (Some ''u1'') scenario_request) =
     Json 201
       \<lparr>order_userId = ''u1'', status = PENDING, subtotal = 100, order_discount = 20,
        tax = 10, shipping = 0, total = 90, offerId = Some ''o1'',
        items = [\<lparr>productId = ''A'', quantity = 5, price = 20, item_total = 100\<rparr>]\<rparr> \<and>
   products (snd (POST_order scenario_db 50 (Some ''u1'') scenario_request)) ''A'' =
     Some \<lparr>product_name = ''Apple'', stock = 0, product_isActive = True, rating = 0,
           reviewCount = 0\<rparr> \<and>
   fst (POST_order two_line_db 50 (Some ''u1'')
     \<lparr>req_items = [\<lparr>req_productId = ''A'', req_quantity = 1, req_price = 20\<rparr>,
                   \<lparr>req_productId = ''B'', req_quantity = 9, req_price = 10\<rparr>],
      shippingAddress = ''1 Main Street'', paymentMethod = ''card'', req_offerCode = None\<rparr>) =
     JsonError 400 ''Insufficient stock for product: Apple'' \<and>
   fst (POST_order two_line_db 50 (Some ''u1'')
     \<lparr>req_items = [\<lparr>req_productId = ''B'', req_quantity = 9, req_price = 10\<rparr>,
                   \<lparr>req_productId = ''A'', req_quantity = 1, req_price = 20\<rparr>],
      shippingAddress = ''1 Main Street'', paymentMethod = ''card'', req_offerCode = None\<rparr>) =
     JsonError 400 ''Insufficient stock for product: Bread''"
proof -
  have ok: "orderSchema_ok scenario_request"
    by (simp add: scenario_request_def orderSchema_ok_def)
  note POST_order_all_or_nothing [OF ok, of scenario_db 50 "''u1''"]
  then show ?thesis
    using ok scenario_created scenario_stock_taken two_line_short_names_first by simp
qed

text \<open>
  The claim as stated has every failure response report which product failed. A
  request for a product that does not exist gets the response
  \<open>Some products are not available\<close>, which names no product.
\<close>

theorem missing_product_not_named:
  "POST_order scenario_db 50 (Some ''u1'')
     \<lparr>req_items = [\<lparr>req_productId = ''ghost'', req_quantity = 1, req_price = 20\<rparr>],
      shippingAddress = ''1 Main Street'', paymentMethod = ''card'', req_offerCode = None\<rparr> =
     (JsonError 400 ''Some products are not available'', scenario_db)"
  by (simp add: scenario_db_def handler_defs)

section \<open>Lemmas on the order lifecycle\<close>

lemma PUT_admin_order_products:
  "products (snd (PUT_admin_order db admin i st)) =
     (if admin \<and> i < length (orders db)
      then (if st = Some CANCELLED \<and> status (orders db ! i) \<noteq> CANCELLED
            then adjust_stock (products db)
                   (map (\<lambda>it. (productId it, quantity it)) (items (orders db ! i)))
            else if status (orders db ! i) = CANCELLED \<and> st \<noteq> Some CANCELLED \<and>
                    list_all (stockCheck (products db)) (items (orders db ! i))
            then adjust_stock (products db)
                   (map (\<lambda>it. (productId it, - quantity it)) (items (orders db ! i)))
            else products db)
      else products db)"
  by (auto simp: PUT_admin_order_def order_findUnique_def order_update_status_def Let_def
      update_stock_all_snd list_ex_iff list_all_iff)

lemma PUT_admin_order_orders:
  "orders (snd (PUT_admin_order db admin i st)) = orders db \<or>
   (i < length (orders db) \<and>
    (\<exists>s. orders (snd (PUT_admin_order db admin i st)) =
           (orders db)[i := (orders db ! i)\<lparr>status := s\<rparr>]))"
  by (auto simp: PUT_admin_order_def order_findUnique_def order_update_status_def Let_def
      split: option.splits)

lemma PUT_order_products:
  "products (snd (PUT_order db admin i st)) =
     (if admin \<and> i < length (orders db) \<and> st = Some CANCELLED \<and>
         status (orders db ! i) \<noteq> CANCELLED
      then snd (update_stock_each (products db)
                  (map (\<lambda>it. (productId it, quantity it)) (items (orders db ! i))))
      else products db)"
  by (simp add: PUT_order_def order_findUnique_def order_update_status_def Let_def)

lemma PUT_order_orders:
  "orders (snd (PUT_order db admin i st)) = orders db \<or>
   (i < length (orders db) \<and>
    (\<exists>s. orders (snd (PUT_order db admin i st)) =
           (orders db)[i := (orders db ! i)\<lparr>status := s\<rparr>]))"
  by (auto simp: PUT_order_def order_findUnique_def order_update_status_def Let_def
      split: option.splits)

lemma orders_wf_update:
  assumes "list_all order_wf os"
    and "os' = os \<or> (i < length os \<and> (\<exists>s. os' = os[i := (os ! i)\<lparr>status := s\<rparr>]))"
  shows "list_all order_wf os'"
proof -
  have "\<And>s. i < length os \<Longrightarrow> list_all order_wf (os[i := (os ! i)\<lparr>status := s\<rparr>])"
  proof -
    fix s assume i: "i < length os"
    then have "order_wf (os ! i)" using assms(1) by (simp add: list_all_length)
    then have "order_wf ((os ! i)\<lparr>status := s\<rparr>)" by (simp add: order_wf_def)
    moreover have "set (os[i := (os ! i)\<lparr>status := s\<rparr>]) \<subseteq>
                   insert ((os ! i)\<lparr>status := s\<rparr>) (set os)"
      by (rule set_update_subset_insert)
    ultimately show "list_all order_wf (os[i := (os ! i)\<lparr>status := s\<rparr>])"
      using assms(1) by (auto simp: list_all_iff)
  qed
  then show ?thesis using assms by auto
qed

lemma PUT_admin_order_inv:
  assumes "stock_nonneg (products db)" and "list_all order_wf (orders db)"
  shows "stock_nonneg (products (snd (PUT_admin_order db admin i st))) \<and>
         list_all order_wf (orders (snd (PUT_admin_order db admin i st)))"
proof
  show "list_all order_wf (orders (snd (PUT_admin_order db admin i st)))"
    using assms(2) PUT_admin_order_orders by (rule orders_wf_update)
  show "stock_nonneg (products (snd (PUT_admin_order db admin i st)))"
  proof (cases "admin \<and> i < length (orders db)")
    case False
    then show ?thesis using assms(1) by (auto simp: PUT_admin_order_products)
  next
    case True
    then have wf: "order_wf (orders db ! i)" using assms(2) by (simp add: list_all_length)
    let ?its = "items (orders db ! i)"
    have incr: "stock_nonneg (adjust_stock (products db)
                   (map (\<lambda>it. (productId it, quantity it)) ?its))"
    proof (rule stock_nonneg_adjust_incr [OF assms(1)])
      show "\<forall>d \<in> set (map (\<lambda>it. (productId it, quantity it)) ?its). 0 \<le> snd d"
        using wf by (auto simp: order_wf_def list_all_iff less_imp_le)
    qed
    have decr: "stock_nonneg (adjust_stock (products db)
                   (map (\<lambda>it. (productId it, - quantity it)) ?its))"
      if chk: "list_all (stockCheck (products db)) ?its"
    proof (rule stock_nonneg_adjust_decr [OF assms(1)])
      show "distinct (map fst (map (\<lambda>it. (productId it, - quantity it)) ?its))"
        using wf by (simp add: order_wf_def comp_def)
      show "\<forall>d \<in> set (map (\<lambda>it. (productId it, - quantity it)) ?its).
              \<forall>p. products db (fst d) = Some p \<longrightarrow> 0 \<le> stock p + snd d"
        using chk by (auto simp: list_all_iff stockCheck_def split: option.splits)
    qed
    show ?thesis
      using assms(1) incr decr by (auto simp: PUT_admin_order_products)
  qed
qed

lemma PUT_order_inv:
  assumes "stock_nonneg (products db)" and "list_all order_wf (orders db)"
  shows "stock_nonneg (products (snd (PUT_order db admin i st))) \<and>
         list_all order_wf (orders (snd (PUT_order db admin i st)))"
proof
  show "list_all order_wf (orders (snd (PUT_order db admin i st)))"
    using assms(2) PUT_order_orders by (rule orders_wf_update)
  show "stock_nonneg (products (snd (PUT_order db admin i st)))"
  proof (cases "admin \<and> i < length (orders db)")
    case False
    then show ?thesis using assms(1) by (auto simp: PUT_order_products)
  next
    case True
    then have wf: "order_wf (orders db ! i)" using assms(2) by (simp add: list_all_length)
    let ?ds = "map (\<lambda>it. (productId it, quantity it)) (items (orders db ! i))"
    obtain ds' where ds': "snd (update_stock_each (products db) ?ds) = adjust_stock (products db) ds'"
      "set ds' \<subseteq> set ?ds"
      using update_stock_each_prefix by blast
    have "\<forall>d \<in> set ?ds. 0 \<le> snd d"
      using wf by (auto simp: order_wf_def list_all_iff less_imp_le)
    then have "\<forall>d \<in> set ds'. 0 \<le> snd d" using ds'(2) by blast
    with assms(1) have "stock_nonneg (adjust_stock (products db) ds')"
      by (rule stock_nonneg_adjust_incr)
    then show ?thesis
      using assms(1) ds'(1) by (simp add: PUT_order_products)
  qed
qed

lemma POST_order_inv:
  assumes "stock_nonneg (products db)" and "list_all order_wf (orders db)"
  shows "stock_nonneg (products (snd (POST_order db now auth req))) \<and>
         list_all order_wf (orders (snd (POST_order db now auth req)))"
proof (cases "\<exists>ord. fst (POST_order db now auth req) = Json 201 ord")
  case False
  then have "snd (POST_order db now auth req) = db"
    by (intro POST_order_failure_unchanged) blast
  then show ?thesis using assms by simp
next
  case True
  then obtain ord where created: "fst (POST_order db now auth req) = Json 201 ord" by blast
  from POST_order_trichotomy [OF created] obtain uid where
    a: "auth = Some uid" and s: "orderSchema_ok req"
    and d: "distinct (map req_productId (req_items req))"
    and ok: "\<forall>it \<in> set (req_items req). \<exists>p. products db (req_productId it) = Some p \<and>
               product_isActive p \<and> req_quantity it \<le> stock p"
    by blast
  let ?ds = "map (\<lambda>it. (req_productId it, - req_quantity it)) (req_items req)"
  from POST_order_success [OF s d ok, of now uid] created a have
    prod: "products (snd (POST_order db now auth req)) = adjust_stock (products db) ?ds"
    and ords: "orders (snd (POST_order db now auth req)) = orders db @ [ord]"
    and its: "items ord = map make_orderItem (req_items req)"
    by auto
  have "stock_nonneg (adjust_stock (products db) ?ds)"
  proof (rule stock_nonneg_adjust_decr [OF assms(1)])
    show "distinct (map fst ?ds)" using d by (simp add: comp_def)
    show "\<forall>d \<in> set ?ds. \<forall>p. products db (fst d) = Some p \<longrightarrow> 0 \<le> stock p + snd d"
      using ok by force
  qed
  moreover have "order_wf ord"
    using its d s
    by (simp add: order_wf_def orderSchema_ok_def comp_def make_orderItem_def list_all_iff)
  ultimately show ?thesis
    using prod ords assms(2) by simp
qed

lemma step_inv:
  assumes "stock_nonneg (products db)" and "list_all order_wf (orders db)"
  shows "stock_nonneg (products (step db op)) \<and> list_all order_wf (orders (step db op))"
  using assms
  by (cases op) (simp_all add: POST_order_inv PUT_admin_order_inv PUT_order_inv)

lemma run_inv:
  assumes "stock_nonneg (products db)" and "list_all order_wf (orders db)"
  shows "stock_nonneg (products (run db ops)) \<and> list_all order_wf (orders (run db ops))"
  using assms unfolding run_def
proof (induction ops arbitrary: db)
  case Nil
  then show ?case by simp
next
  case (Cons op ops)
  from step_inv [OF Cons.prems, of op] have
    "stock_nonneg (products (step db op))" "list_all order_wf (orders (step db op))" by blast+
  from Cons.IH [OF this] show ?case by simp
qed

section \<open>Properties of the order lifecycle\<close>

text \<open>
  C1. Starting from a store in which no stock is negative and every order has at most
  one line per product with positive quantities (in particular, from a store without
  orders), after any sequence of order creations and order updates through either
  update handler, run one at a time, no product has negative stock. Orders that the
  creation handler adds have that shape, since it rejects a request that names a
  product twice and every quantity that exceeds the stock.
\<close>

theorem stock_never_negative:
  assumes "stock_nonneg (products db)" and "list_all order_wf (orders db)"
  shows "\<forall>i p. products (run db ops) i = Some p \<longrightarrow> 0 \<le> stock p"
  using run_inv [OF assms, of ops] by (simp add: stock_nonneg_def)

lemma scenario_db_inv: "stock_nonneg (products scenario_db) \<and> list_all order_wf (orders scenario_db)"
  by (simp add: scenario_db_def stock_nonneg_def)

lemma scenario_run:
  "products (run scenario_db
      [Create 50 (Some ''u1'') scenario_request,
       AdminPut True 0 (Some CANCELLED),
       AdminPut True 0 (Some PENDING)]) ''A'' =
     Some \<lparr>product_name = ''Apple'', stock = 0, product_isActive = True, rating = 0,
           reviewCount = 0\<rparr>"
  by (simp add: run_def scenario_defs handler_defs PUT_admin_order_def order_findUnique_def
      order_update_status_def stockCheck_def)

theorem stock_never_negative_witness:
  "stock_nonneg (products scenario_db) \<and> list_all order_wf (orders scenario_db) \<and>
   products (run scenario_db
      [Create 50 (Some ''u1'') scenario_request,
       AdminPut True 0 (Some CANCELLED),
       AdminPut True 0 (Some PENDING)]) ''A'' =
     Some \<lparr>product_name = ''Apple'', stock = 0, product_isActive = True, rating = 0,
           reviewCount = 0\<rparr> \<and>
   0 \<le> stock \<lparr>product_name = ''Apple'', stock = 0, product_isActive = True, rating = 0,
           reviewCount = 0\<rparr>"
  using stock_never_negative [of scenario_db
      "[Create 50 (Some ''u1'') scenario_request,
       AdminPut True 0 (Some CANCELLED),
       AdminPut True 0 (Some PENDING)]"] scenario_db_inv scenario_run
  by simp

lemma PUT_admin_order_cancel:
  assumes "i < length (orders db)" and "status (orders db ! i) \<noteq> CANCELLED"
    and "\<forall>it \<in> set (items (orders db ! i)). products db (productId it) \<noteq> None"
  shows "PUT_admin_order db True i (Some CANCELLED) =
           (Json 200 ((orders db ! i)\<lparr>status := CANCELLED\<rparr>),
            db\<lparr>products := adjust_stock (products db)
                    (map (\<lambda>it. (productId it, quantity it)) (items (orders db ! i))),
               orders := (orders db)[i := (orders db ! i)\<lparr>status := CANCELLED\<rparr>]\<rparr>)"
proof -
  let ?ds = "map (\<lambda>it. (productId it, quantity it)) (items (orders db ! i))"
  have "\<not> fst (update_stock_all (products db) ?ds)"
    using assms(3) by (simp add: update_stock_all_fst)
  then show ?thesis
    using assms(1,2)
    by (simp add: PUT_admin_order_def order_findUnique_def order_update_status_def Let_def
        update_stock_all_snd)
qed

lemma PUT_order_cancel:
  assumes "i < length (orders db)" and "status (orders db ! i) \<noteq> CANCELLED"
    and "\<forall>it \<in> set (items (orders db ! i)). products db (productId it) \<noteq> None"
  shows "PUT_order db True i (Some CANCELLED) =
           (Json 200 ((orders db ! i)\<lparr>status := CANCELLED\<rparr>),
            db\<lparr>products := adjust_stock (products db)
                    (map (\<lambda>it. (productId it, quantity it)) (items (orders db ! i))),
               orders := (orders db)[i := (orders db ! i)\<lparr>status := CANCELLED\<rparr>]\<rparr>)"
proof -
  let ?ds = "map (\<lambda>it. (productId it, quantity it)) (items (orders db ! i))"
  have "update_stock_each (products db) ?ds = (False, adjust_stock (products db) ?ds)"
    using assms(3) by (intro update_stock_each_present) simp
  then show ?thesis
    using assms(1,2)
    by (simp add: PUT_order_def order_findUnique_def order_update_status_def Let_def)
qed

lemma cancelled_again_no_stock_change:
  assumes "i < length (orders db)" and "status (orders db ! i) = CANCELLED"
  shows "products (snd (PUT_admin_order db admin i (Some CANCELLED))) = products db"
    and "products (snd (PUT_order db admin i (Some CANCELLED))) = products db"
  using assms by (simp_all add: PUT_admin_order_products PUT_order_products)

text \<open>
  C2. For an order that is not cancelled and whose lines all name existing products
  (the product handlers never delete a product that an order line names), a request
  for \<open>CANCELLED\<close> through either update handler succeeds, stores the status
  \<open>CANCELLED\<close> and raises the stock of every product by the sum of the quantities of the
  order's lines for it; the same request sent again leaves every stock as it is. For any
  order that already is cancelled, a request for \<open>CANCELLED\<close> changes no stock.
\<close>

theorem cancel_restores_stock_once:
  assumes "i < length (orders db)"
    and "\<forall>it \<in> set (items (orders db ! i)). products db (productId it) \<noteq> None"
  shows
    "(status (orders db ! i) \<noteq> CANCELLED \<longrightarrow>
        (\<forall>k. products (snd (PUT_admin_order db True i (Some CANCELLED))) k =
              map_option
                (\<lambda>p. p\<lparr>stock := stock p +
                   qty_for k (map (\<lambda>it. (productId it, quantity it)) (items (orders db ! i)))\<rparr>)
                (products db k)) \<and>
        status (orders (snd (PUT_admin_order db True i (Some CANCELLED))) ! i) = CANCELLED \<and>
        products (snd (PUT_admin_order (snd (PUT_admin_order db True i (Some CANCELLED)))
                         True i (Some CANCELLED))) =
          products (snd (PUT_admin_order db True i (Some CANCELLED))) \<and>
        (\<forall>k. products (snd (PUT_order db True i (Some CANCELLED))) k =
              map_option
                (\<lambda>p. p\<lparr>stock := stock p +
                   qty_for k (map (\<lambda>it. (productId it, quantity it)) (items (orders db ! i)))\<rparr>)
                (products db k)) \<and>
        status (orders (snd (PUT_order db True i (Some CANCELLED))) ! i) = CANCELLED \<and>
        products (snd (PUT_order (snd (PUT_order db True i (Some CANCELLED)))
                         True i (Some CANCELLED))) =
          products (snd (PUT_order db True i (Some CANCELLED)))) \<and>
     (status (orders db ! i) = CANCELLED \<longrightarrow>
        products (snd (PUT_admin_order db True i (Some CANCELLED))) = products db \<and>
        products (snd (PUT_order db True i (Some CANCELLED))) = products db)"
proof (intro conjI impI)
  assume nc: "status (orders db ! i) \<noteq> CANCELLED"
  note a = PUT_admin_order_cancel [OF assms(1) nc assms(2)]
  note b = PUT_order_cancel [OF assms(1) nc assms(2)]
  show "\<forall>k. products (snd (PUT_admin_order db True i (Some CANCELLED))) k =
              map_option
                (\<lambda>p. p\<lparr>stock := stock p +
                   qty_for k (map (\<lambda>it. (productId it, quantity it)) (items (orders db ! i)))\<rparr>)
                (products db k)"
    by (simp add: a adjust_stock_def)
  show "status (orders (snd (PUT_admin_order db True i (Some CANCELLED))) ! i) = CANCELLED"
    using assms(1) by (simp add: a)
  show "products (snd (PUT_admin_order (snd (PUT_admin_order db True i (Some CANCELLED)))
                         True i (Some CANCELLED))) =
          products (snd (PUT_admin_order db True i (Some CANCELLED)))"
    using assms(1) by (intro cancelled_again_no_stock_change) (simp_all add: a)
  show "\<forall>k. products (snd (PUT_order db True i (Some CANCELLED))) k =
              map_option
                (\<lambda>p. p\<lparr>stock := stock p +
                   qty_for k (map (\<lambda>it. (productId it, quantity it)) (items (orders db ! i)))\<rparr>)
                (products db k)"
    by (simp add: b adjust_stock_def)
  show "status (orders (snd (PUT_order db True i (Some CANCELLED))) ! i) = CANCELLED"
    using assms(1) by (simp add: b)
  show "products (snd (PUT_order (snd (PUT_order db True i (Some CANCELLED)))
                         True i (Some CANCELLED))) =
          products (snd (PUT_order db True i (Some CANCELLED)))"
    using assms(1) by (intro cancelled_again_no_stock_change) (simp_all add: b)
next
  assume c: "status (orders db ! i) = CANCELLED"
  show "products (snd (PUT_admin_order db True i (Some CANCELLED))) = products db"
    using assms(1) c by (rule cancelled_again_no_stock_change)
  show "products (snd (PUT_order db True i (Some CANCELLED))) = products db"
    using assms(1) c by (rule cancelled_again_no_stock_change)
qed

lemmas put_defs = PUT_admin_order_def PUT_order_def order_findUnique_def
  order_update_status_def stockCheck_def product_update_stock_def Let_def

lemma two_line_cancel_admin:
  "products (snd (PUT_admin_order two_line_db True 0 (Some CANCELLED))) ''A'' =
     Some \<lparr>product_name = ''Apple'', stock = 2, product_isActive = True, rating = 0,
           reviewCount = 0\<rparr> \<and>
   products (snd (PUT_admin_order two_line_db True 0 (Some CANCELLED))) ''B'' =
     Some \<lparr>product_name = ''Bread'', stock = 8, product_isActive = True, rating = 0,
           reviewCount = 0\<rparr>"
  by (simp add: two_line_db_def put_defs)

lemma two_line_cancel_twice:
  "products (snd (PUT_order (snd (PUT_order two_line_db True 0 (Some CANCELLED)))
      True 0 (Some CANCELLED))) ''A'' =
     Some \<lparr>product_name = ''Apple'', stock = 2, product_isActive = True, rating = 0,
           reviewCount = 0\<rparr>"
  by (simp add: two_line_db_def put_defs)

text \<open>The two-line order, cancelled once and twice.\<close>

theorem cancel_restores_stock_once_witness:
  "0 < length (orders two_line_db) \<and>
   products (snd (PUT_admin_order two_line_db True 0 (Some CANCELLED))) ''A'' =
     Some \<lparr>product_name = ''Apple'', stock = 2, product_isActive = True, rating = 0,
           reviewCount = 0\<rparr> \<and>
   products (snd (PUT_admin_order two_line_db True 0 (Some CANCELLED))) ''B'' =
     Some \<lparr>product_name = ''Bread'', stock = 8, product_isActive = True, rating = 0,
           reviewCount = 0\<rparr> \<and>
   products (snd (PUT_order (snd (PUT_order two_line_db True 0 (Some CANCELLED)))
      True 0 (Some CANCELLED))) ''A'' =
     Some \<lparr>product_name = ''Apple'', stock = 2, product_isActive = True, rating = 0,
           reviewCount = 0\<rparr>"
  using cancel_restores_stock_once [of 0 two_line_db] two_line_cancel_admin
    two_line_cancel_twice
  by (simp add: two_line_db_def)

text \<open>
  The admin handler does what C3 says: for a cancelled order with one line per product
  and a request for another status, a line whose product is missing or has less stock
  than the line's quantity gets the 400 and the store stays as it was; otherwise the
  stock of each line's product is lowered by the quantity and the status is stored.
\<close>

lemma PUT_admin_order_reinstate_rejected:
  assumes "i < length (orders db)" and "status (orders db ! i) = CANCELLED"
    and "s \<noteq> CANCELLED"
    and "\<exists>it \<in> set (items (orders db ! i)). \<not> stockCheck (products db) it"
  shows "PUT_admin_order db True i (Some s) =
           (JsonError 400 ''Insufficient stock for one or more items'', db)"
  using assms
  by (simp add: PUT_admin_order_def order_findUnique_def Let_def list_ex_iff)

lemma PUT_admin_order_reinstate_accepted:
  assumes "i < length (orders db)" and "status (orders db ! i) = CANCELLED"
    and "s \<noteq> CANCELLED"
    and "\<forall>it \<in> set (items (orders db ! i)). stockCheck (products db) it"
  shows "PUT_admin_order db True i (Some s) =
           (Json 200 ((orders db ! i)\<lparr>status := s\<rparr>),
            db\<lparr>products := adjust_stock (products db)
                    (map (\<lambda>it. (productId it, - quantity it)) (items (orders db ! i))),
               orders := (orders db)[i := (orders db ! i)\<lparr>status := s\<rparr>]\<rparr>)"
proof -
  let ?ds = "map (\<lambda>it. (productId it, - quantity it)) (items (orders db ! i))"
  have "\<forall>d \<in> set ?ds. products db (fst d) \<noteq> None"
    using assms(4) by (auto simp: stockCheck_def split: option.splits)
  then have "\<not> fst (update_stock_all (products db) ?ds)"
    by (simp add: update_stock_all_fst)
  then show ?thesis
    using assms
    by (simp add: PUT_admin_order_def order_findUnique_def order_update_status_def Let_def
        update_stock_all_snd list_ex_iff)
qed

text \<open>
  C3. A move out of \<open>CANCELLED\<close> is claimed to be rejected when a line's product has
  less stock than the line's quantity, and to deduct the stock otherwise. The handler
  PUT /api/orders/[id] has no such branch: for the cancelled order of two units of a
  product with stock 0, a request for \<open>PENDING\<close> is answered with 200 and the status
  \<open>PENDING\<close> is stored, while the admin handler rejects the same request with 400; and
  with stock 5 the request is accepted and the stock stays 5, where the admin handler
  lowers it to 3.
\<close>

theorem reinstate_without_stock_check:
  "fst (PUT_order cancelled_db True 0 (Some PENDING)) =
     Json 200 (cancelled_order\<lparr>status := PENDING\<rparr>) \<and>
   orders (snd (PUT_order cancelled_db True 0 (Some PENDING))) =
     [cancelled_order\<lparr>status := PENDING\<rparr>] \<and>
   products (snd (PUT_order cancelled_db True 0 (Some PENDING))) = products cancelled_db \<and>
   fst (PUT_admin_order cancelled_db True 0 (Some PENDING)) =
     JsonError 400 ''Insufficient stock for one or more items'' \<and>
   products (snd (PUT_order
       (cancelled_db\<lparr>products := [''A'' \<mapsto> \<lparr>product_name = ''Apple'', stock = 5,
          product_isActive = True, rating = 0, reviewCount = 0\<rparr>]\<rparr>)
       True 0 (Some PENDING))) ''A'' =
     Some \<lparr>product_name = ''Apple'', stock = 5, product_isActive = True, rating = 0,
           reviewCount = 0\<rparr> \<and>
   products (snd (PUT_admin_order
       (cancelled_db\<lparr>products := [''A'' \<mapsto> \<lparr>product_name = ''Apple'', stock = 5,
          product_isActive = True, rating = 0, reviewCount = 0\<rparr>]\<rparr>)
       True 0 (Some PENDING))) ''A'' =
     Some \<lparr>product_name = ''Apple'', stock = 3, product_isActive = True, rating = 0,
           reviewCount = 0\<rparr>"
  by (simp add: cancelled_db_def cancelled_order_def put_defs)

section \<open>Properties of reviews\<close>

lemma foldl_rating_sum:
  "foldl (\<lambda>s r. s + review_rating r) a rs = a + sum_list (map review_rating rs)"
  by (induction rs arbitrary: a) simp_all

lemma updateProductRating_reviews [simp]:
  "reviews (updateProductRating db pid) = reviews db"
  by (simp add: updateProductRating_def Let_def split: option.splits)

lemma updateProductRating_product:
  assumes "products db pid = Some p"
  shows "products (updateProductRating db pid) pid =
           Some (p\<lparr>rating :=
                     (if length (active_reviews db pid) > 0
                      then of_int (sum_list (map review_rating (active_reviews db pid))) /
                           of_nat (length (active_reviews db pid))
                      else 0),
                   reviewCount := length (active_reviews db pid)\<rparr>)"
  using assms
  by (simp add: updateProductRating_def active_reviews_def Let_def foldl_rating_sum)

lemma active_reviews_updateProductRating [simp]:
  "active_reviews (updateProductRating db pid) q = active_reviews db q"
  by (simp add: active_reviews_def)

lemma POST_review_duplicate:
  assumes "reviewSchema_ok req" and "products db (rev_productId req) \<noteq> None"
    and "\<exists>r \<in> set (reviews db). review_userId r = uid \<and>
            review_productId r = rev_productId req"
  shows "POST_review db activeDefault (Some uid) req =
           (JsonError 400 ''You have already reviewed this product'', db)"
proof -
  have "find (\<lambda>r. review_userId r = uid \<and> review_productId r = rev_productId req)
          (reviews db) \<noteq> None"
    using assms(3) by (auto simp: find_None_iff)
  then show ?thesis
    using assms(1,2) by (auto simp: POST_review_def split: option.splits)
qed

lemma POST_review_cases:
  "POST_review db activeDefault auth req =
     (if reviewSchema_ok req \<and> auth \<noteq> None \<and> products db (rev_productId req) \<noteq> None \<and>
         \<not> (\<exists>r \<in> set (reviews db). review_userId r = the auth \<and>
               review_productId r = rev_productId req)
      then (Json 201 \<lparr>review_userId = the auth, review_productId = rev_productId req,
                       review_rating = rev_rating req, review_isActive = activeDefault\<rparr>,
            updateProductRating
              (db\<lparr>reviews := reviews db @
                    [\<lparr>review_userId = the auth, review_productId = rev_productId req,
                      review_rating = rev_rating req, review_isActive = activeDefault\<rparr>]\<rparr>)
              (rev_productId req))
      else (fst (POST_review db activeDefault auth req), db))"
proof (cases "find (\<lambda>r. review_userId r = the auth \<and> review_productId r = rev_productId req)
          (reviews db)")
  case None
  then have "\<not> (\<exists>r \<in> set (reviews db). review_userId r = the auth \<and>
               review_productId r = rev_productId req)"
    by (auto simp: find_None_iff)
  then show ?thesis
    using None by (auto simp: POST_review_def Let_def split: option.splits)
next
  case (Some r)
  then have "\<exists>r \<in> set (reviews db). review_userId r = the auth \<and>
               review_productId r = rev_productId req"
    by (auto simp: find_Some_iff)
  then show ?thesis
    using Some by (auto simp: POST_review_def Let_def split: option.splits)
qed

lemma POST_review_created:
  assumes "fst (POST_review db activeDefault auth req) = Json 201 rv"
  shows "\<exists>uid. auth = Some uid \<and> reviewSchema_ok req \<and>
           products db (rev_productId req) \<noteq> None \<and>
           \<not> (\<exists>r \<in> set (reviews db). review_userId r = uid \<and>
                 review_productId r = rev_productId req) \<and>
           rv = \<lparr>review_userId = uid, review_productId = rev_productId req,
                 review_rating = rev_rating req, review_isActive = activeDefault\<rparr> \<and>
           snd (POST_review db activeDefault auth req) =
             updateProductRating (db\<lparr>reviews := reviews db @ [rv]\<rparr>) (rev_productId req)"
proof (cases "reviewSchema_ok req \<and> auth \<noteq> None \<and> products db (rev_productId req) \<noteq> None \<and>
         \<not> (\<exists>r \<in> set (reviews db). review_userId r = the auth \<and>
               review_productId r = rev_productId req)")
  case True
  then obtain uid where "auth = Some uid" by auto
  then show ?thesis
    using True assms by (subst (asm) POST_review_cases, subst POST_review_cases) auto
next
  case False
  have "fst (POST_review db activeDefault auth req) \<noteq> Json 201 rv"
    using False
    by (auto simp: POST_review_def Let_def find_None_iff split: option.splits)
  then show ?thesis using assms by simp
qed

lemma POST_review_not_created:
  assumes "\<And>rv. fst (POST_review db activeDefault auth req) \<noteq> Json 201 rv"
  shows "snd (POST_review db activeDefault auth req) = db"
proof (cases "reviewSchema_ok req \<and> auth \<noteq> None \<and> products db (rev_productId req) \<noteq> None \<and>
         \<not> (\<exists>r \<in> set (reviews db). review_userId r = the auth \<and>
               review_productId r = rev_productId req)")
  case True
  then have "fst (POST_review db activeDefault auth req) =
      Json 201 \<lparr>review_userId = the auth, review_productId = rev_productId req,
                review_rating = rev_rating req, review_isActive = activeDefault\<rparr>"
    by (subst POST_review_cases) simp
  with assms show ?thesis by blast
next
  case False
  then show ?thesis by (subst POST_review_cases) auto
qed

text \<open>
  C9. In a store with at most one review per pair of user and product, the review
  handler keeps it so; a well-formed request of a user who already has a review of the
  product is answered with 400 and nothing is inserted, in particular the repetition of
  a request that was just accepted; and when a review is created, it is appended and the
  product's rating is the arithmetic mean of the ratings of its active reviews (0 when
  it has none) and its review count is their number, both taken over the reviews in the
  store after the insertion.
\<close>

theorem review_unique_and_rating:
  assumes "distinct (map review_key (reviews db))"
  shows
    "distinct (map review_key (reviews (snd (POST_review db activeDefault auth req)))) \<and>
     (reviewSchema_ok req \<and> products db (rev_productId req) \<noteq> None \<and>
      (\<exists>r \<in> set (reviews db). review_userId r = uid \<and>
          review_productId r = rev_productId req) \<longrightarrow>
        POST_review db activeDefault (Some uid) req =
          (JsonError 400 ''You have already reviewed this product'', db)) \<and>
     (\<forall>rv. fst (POST_review db activeDefault auth req) = Json 201 rv \<longrightarrow>
        reviews (snd (POST_review db activeDefault auth req)) = reviews db @ [rv] \<and>
        (\<exists>p. products (snd (POST_review db activeDefault auth req)) (rev_productId req) =
               Some p \<and>
             reviewCount p =
               length (active_reviews (snd (POST_review db activeDefault auth req))
                         (rev_productId req)) \<and>
             rating p =
               (if reviewCount p = 0 then 0
                else of_int (sum_list (map review_rating
                       (active_reviews (snd (POST_review db activeDefault auth req))
                          (rev_productId req)))) / of_nat (reviewCount p))) \<and>
        fst (POST_review (snd (POST_review db activeDefault auth req)) activeDefault auth req) =
          JsonError 400 ''You have already reviewed this product'' \<and>
        snd (POST_review (snd (POST_review db activeDefault auth req)) activeDefault auth req) =
          snd (POST_review db activeDefault auth req))"
proof -
  let ?db' = "snd (POST_review db activeDefault auth req)"
  have dup: "reviewSchema_ok req \<and> products db (rev_productId req) \<noteq> None \<and>
      (\<exists>r \<in> set (reviews db). review_userId r = uid \<and>
          review_productId r = rev_productId req) \<longrightarrow>
        POST_review db activeDefault (Some uid) req =
          (JsonError 400 ''You have already reviewed this product'', db)"
    using POST_review_duplicate by blast
  have created: "\<forall>rv. fst (POST_review db activeDefault auth req) = Json 201 rv \<longrightarrow>
        distinct (map review_key (reviews ?db')) \<and>
        reviews ?db' = reviews db @ [rv] \<and>
        (\<exists>p. products ?db' (rev_productId req) = Some p \<and>
             reviewCount p = length (active_reviews ?db' (rev_productId req)) \<and>
             rating p =
               (if reviewCount p = 0 then 0
                else of_int (sum_list (map review_rating
                       (active_reviews ?db' (rev_productId req)))) / of_nat (reviewCount p))) \<and>
        fst (POST_review ?db' activeDefault auth req) =
          JsonError 400 ''You have already reviewed this product'' \<and>
        snd (POST_review ?db' activeDefault auth req) = ?db'"
  proof (intro allI impI)
    fix rv
    assume c: "fst (POST_review db activeDefault auth req) = Json 201 rv"
    from POST_review_created [OF c] obtain uid' where
      a: "auth = Some uid'" and s: "reviewSchema_ok req"
      and ex: "products db (rev_productId req) \<noteq> None"
      and fresh: "\<not> (\<exists>r \<in> set (reviews db). review_userId r = uid' \<and>
                 review_productId r = rev_productId req)"
      and rv: "rv = \<lparr>review_userId = uid', review_productId = rev_productId req,
                 review_rating = rev_rating req, review_isActive = activeDefault\<rparr>"
      and db': "?db' = updateProductRating (db\<lparr>reviews := reviews db @ [rv]\<rparr>) (rev_productId req)"
      by blast
    let ?db1 = "db\<lparr>reviews := reviews db @ [rv]\<rparr>"
    have revs: "reviews ?db' = reviews db @ [rv]"
      by (simp add: db')
    have "review_key rv \<notin> set (map review_key (reviews db))"
      using fresh rv by (auto simp: review_key_def)
    then have dist: "distinct (map review_key (reviews ?db'))"
      using assms revs by simp
    obtain p0 where p0: "products ?db1 (rev_productId req) = Some p0"
      using ex by auto
    have act: "active_reviews ?db' (rev_productId req) = active_reviews ?db1 (rev_productId req)"
      by (simp add: db')
    have prod1: "products ?db' (rev_productId req) =
           Some (p0\<lparr>rating :=
                     (if length (active_reviews ?db1 (rev_productId req)) > 0
                      then of_int (sum_list (map review_rating (active_reviews ?db1 (rev_productId req)))) /
                           of_nat (length (active_reviews ?db1 (rev_productId req)))
                      else 0),
                   reviewCount := length (active_reviews ?db1 (rev_productId req))\<rparr>)"
      unfolding db' by (rule updateProductRating_product [OF p0])
    have prod: "\<exists>p. products ?db' (rev_productId req) = Some p \<and>
             reviewCount p = length (active_reviews ?db' (rev_productId req)) \<and>
             rating p =
               (if reviewCount p = 0 then 0
                else of_int (sum_list (map review_rating
                       (active_reviews ?db' (rev_productId req)))) / of_nat (reviewCount p))"
      unfolding act prod1 by simp
    have ex': "products ?db' (rev_productId req) \<noteq> None"
      using prod by auto
    have "\<exists>r \<in> set (reviews ?db'). review_userId r = uid' \<and>
            review_productId r = rev_productId req"
      using revs rv by simp
    from POST_review_duplicate [OF s ex' this, of activeDefault]
    have again: "POST_review ?db' activeDefault auth req =
          (JsonError 400 ''You have already reviewed this product'', ?db')"
      using a by simp
    show "distinct (map review_key (reviews ?db')) \<and>
        reviews ?db' = reviews db @ [rv] \<and>
        (\<exists>p. products ?db' (rev_productId req) = Some p \<and>
             reviewCount p = length (active_reviews ?db' (rev_productId req)) \<and>
             rating p =
               (if reviewCount p = 0 then 0
                else of_int (sum_list (map review_rating
                       (active_reviews ?db' (rev_productId req)))) / of_nat (reviewCount p))) \<and>
        fst (POST_review ?db' activeDefault auth req) =
          JsonError 400 ''You have already reviewed this product'' \<and>
        snd (POST_review ?db' activeDefault auth req) = ?db'"
      using dist revs prod again by simp
  qed
  have dist: "distinct (map review_key (reviews ?db'))"
  proof (cases "\<exists>rv. fst (POST_review db activeDefault auth req) = Json 201 rv")
    case True
    then show ?thesis using created by blast
  next
    case False
    then have "?db' = db" by (intro POST_review_not_created) blast
    then show ?thesis using assms by simp
  qed
  show ?thesis
    using dist dup created by blast
qed

text \<open>A second review of the product, by another user, and its repetition.\<close>

lemma review_db_distinct: "distinct (map review_key (reviews review_db))"
  by (simp add: review_db_def)

lemma review_db_post:
  "fst (POST_review review_db True (Some ''u1'') \<lparr>rev_productId = ''A'', rev_rating = 4\<rparr>) =
     Json 201 \<lparr>review_userId = ''u1'', review_productId = ''A'', review_rating = 4,
               review_isActive = True\<rparr> \<and>
   products (snd (POST_review review_db True (Some ''u1'')
       \<lparr>rev_productId = ''A'', rev_rating = 4\<rparr>)) ''A'' =
     Some \<lparr>product_name = ''Apple'', stock = 5, product_isActive = True, rating = 9 / 2,
           reviewCount = 2\<rparr>"
  by (simp add: review_db_def POST_review_def reviewSchema_ok_def updateProductRating_def
      Let_def)

theorem review_unique_and_rating_witness:
  "distinct (map review_key (reviews review_db)) \<and>
   fst (POST_review review_db True (Some ''u1'') \<lparr>rev_productId = ''A'', rev_rating = 4\<rparr>) =
     Json 201 \<lparr>review_userId = ''u1'', review_productId = ''A'', review_rating = 4,
               review_isActive = True\<rparr> \<and>
   products (snd (POST_review review_db True (Some ''u1'')
       \<lparr>rev_productId = ''A'', rev_rating = 4\<rparr>)) ''A'' =
     Some \<lparr>product_name = ''Apple'', stock = 5, product_isActive = True, rating = 9 / 2,
           reviewCount = 2\<rparr> \<and>
   fst (POST_review
          (snd (POST_review review_db True (Some ''u1'')
             \<lparr>rev_productId = ''A'', rev_rating = 4\<rparr>))
          True (Some ''u1'') \<lparr>rev_productId = ''A'', rev_rating = 4\<rparr>) =
     JsonError 400 ''You have already reviewed this product''"
  using review_unique_and_rating [OF review_db_distinct, of True "Some ''u1''"
      "\<lparr>rev_productId = ''A'', rev_rating = 4\<rparr>" "''u1''"]
    review_db_distinct review_db_post
  by simp

end
